theory Spec2Isabelle
  imports Main "HOL-Library.Multiset" "HOL-Library.Sublist" "HOL-Library.Monad_Syntax"
    "HOL-Library.Product_Lexorder"
begin

section \<open>Decimal formatting of Python integers\<close>

text \<open>Python's \<open>str(n)\<close> for a non-negative integer, and the format specifications
  \<open>{n}\<close> and \<open>{n:02}\<close> of an f-string.\<close>

definition digit_char :: "nat \<Rightarrow> char" where
  "digit_char d = ''0123456789'' ! d"

fun str_nat :: "nat \<Rightarrow> string" where
  "str_nat n = (if n < 10 then [digit_char n] else str_nat (n div 10) @ [digit_char (n mod 10)])"

declare str_nat.simps [simp del]

definition str_int :: "int \<Rightarrow> string" where
  "str_int i = (if i < 0 then CHR ''-'' # str_nat (nat (- i)) else str_nat (nat i))"

text \<open>\<open>format(i, '02')\<close>: zero padding to width two, the sign first.\<close>

definition fmt02 :: "int \<Rightarrow> string" where
  "fmt02 i = (if 0 \<le> i \<and> i < 10 then CHR ''0'' # str_int i else str_int i)"

section \<open>Fetch and land: \<open>extract_and_load_chess_data\<close>\<close>

text \<open>Exceptions of the collaborators, as values.\<close>

datatype error = RequestException | JSONDecodeError | UploadError | InvalidInputError | IOError

text \<open>What \<open>requests.get\<close> hands back: the status code, and what \<open>response.json()\<close>
  gives when called (it raises on a body that is not JSON). The decoded body is a
  dictionary from keys to lists of raw games; \<open>'g\<close> is the type of one raw game.\<close>

record 'g response =
  status_code :: int
  json :: "error + (string \<rightharpoonup> 'g list)"

text \<open>The container \<open>chess-etl-files\<close>: blob name to the JSON payload stored there.\<close>

type_synonym 'g blob_store = "string \<rightharpoonup> 'g list"

text \<open>The collaborators of one run: the HTTP client (which may raise) and whether the
  storage account accepts the upload.\<close>

record 'g env =
  http_get :: "string \<Rightarrow> error + 'g response"
  wasb_up :: bool

text \<open>A Python return value: the function is annotated \<open>-> list\<close> and returns a
  boolean.\<close>

datatype 'g py_value = PyBool bool | PyList "'g list" | PyNone

definition api_url :: "string \<Rightarrow> int \<Rightarrow> int \<Rightarrow> string" where
  "api_url username year month =
     ''https://api.chess.com/pub/player/'' @ username @ ''/games/'' @ str_int year @ ''/'' @ fmt02 month"

definition bronze_blobname :: "int \<Rightarrow> int \<Rightarrow> string" where
  "bronze_blobname year month = ''bronze/'' @ str_int year @ ''-'' @ fmt02 month @ ''-games.json''"

text \<open>\<open>az_hook.load_file(..., overwrite=True)\<close>.\<close>

definition load_file :: "'g env \<Rightarrow> 'g blob_store \<Rightarrow> string \<Rightarrow> 'g list \<Rightarrow> error + 'g blob_store" where
  "load_file e store blob_name payload =
     (if wasb_up e then Inr (store(blob_name \<mapsto> payload)) else Inl UploadError)"

text \<open>The games taken from the response: the \<open>if response.status_code == 200\<close> of the
  source, with \<open>data.get("games", [])\<close> in the first branch and \<open>[]\<close> in the second.\<close>

definition pulled_data_of :: "'g response \<Rightarrow> error + 'g list" where
  "pulled_data_of response =
     (if status_code response = 200 then
        (case json response of
           Inl err \<Rightarrow> Inl err
         | Inr data \<Rightarrow> Inr (case data ''games'' of None \<Rightarrow> [] | Some gs \<Rightarrow> gs))
      else Inr [])"

definition extract_and_load_chess_data ::
  "'g env \<Rightarrow> 'g blob_store \<Rightarrow> string \<Rightarrow> int \<Rightarrow> int \<Rightarrow> error + ('g py_value \<times> 'g blob_store)" where
  "extract_and_load_chess_data e store username year month =
     (case http_get e (api_url username year month) of
        Inl err \<Rightarrow> Inl err
      | Inr response \<Rightarrow>
          (case pulled_data_of response of
             Inl err \<Rightarrow> Inl err
           | Inr pulled_data \<Rightarrow>
               (case load_file e store (bronze_blobname year month) pulled_data of
                  Inl err \<Rightarrow> Inl err
                | Inr store' \<Rightarrow> Inr (PyBool True, store'))))"

section \<open>The move-numbering function\<close>

text \<open>Modelled from the spec: \<open>add_move_numbers\<close> is registered by \<open>utils/udfs.py\<close>, which is
  not among the sources. The spec describes it as taking the ordered move-token sequence and
  re-annotating it with explicit move numbers, tokens alternating white/black starting at
  move 1, with no state beyond an incrementing counter; its example joins the numbered
  moves with single spaces.\<close>

fun number_moves :: "nat \<Rightarrow> string list \<Rightarrow> string list" where
  "number_moves n [] = []"
| "number_moves n [w] = [str_nat n @ ''. '' @ w]"
| "number_moves n (w # b # rest) = (str_nat n @ ''. '' @ w @ '' '' @ b) # number_moves (Suc n) rest"

text \<open>Python's \<open>' '.join(parts)\<close>.\<close>

fun join_sp :: "string list \<Rightarrow> string" where
  "join_sp [] = []"
| "join_sp [p] = p"
| "join_sp (p # q # ps) = p @ '' '' @ join_sp (q # ps)"

definition add_move_numbers :: "string list \<Rightarrow> string" where
  "add_move_numbers tokens = join_sp (number_moves 1 tokens)"

section \<open>Calendar dates, times of day and timestamps\<close>

record date =
  d_year :: int
  d_month :: int
  d_day :: int

record tod =
  t_hour :: int
  t_minute :: int
  t_second :: int

definition leap_year :: "int \<Rightarrow> bool" where
  "leap_year y = (y mod 4 = 0 \<and> (y mod 100 \<noteq> 0 \<or> y mod 400 = 0))"

definition days_in_month :: "int \<Rightarrow> int \<Rightarrow> int" where
  "days_in_month y m =
     (if m = 2 then (if leap_year y then 29 else 28)
      else if m = 4 \<or> m = 6 \<or> m = 9 \<or> m = 11 then 30 else 31)"

definition valid_date :: "date \<Rightarrow> bool" where
  "valid_date d = (1 \<le> d_month d \<and> d_month d \<le> 12 \<and> 1 \<le> d_day d \<and> d_day d \<le> days_in_month (d_year d) (d_month d))"

definition valid_tod :: "tod \<Rightarrow> bool" where
  "valid_tod t = (0 \<le> t_hour t \<and> t_hour t < 24 \<and> 0 \<le> t_minute t \<and> t_minute t < 60 \<and> 0 \<le> t_second t \<and> t_second t < 60)"

text \<open>Days since 1970-01-01 in the proleptic Gregorian calendar, the count both engines
  keep behind a date.\<close>

definition days_from_civil :: "date \<Rightarrow> int" where
  "days_from_civil d =
     (let y = (if d_month d \<le> 2 then d_year d - 1 else d_year d);
          era = y div 400;
          yoe = y - era * 400;
          mp = (if d_month d > 2 then d_month d - 3 else d_month d + 9);
          doy = (153 * mp + 2) div 5 + d_day d - 1;
          doe = yoe * 365 + yoe div 4 - yoe div 100 + doy
      in era * 146097 + doe - 719468)"

text \<open>A timestamp without zone, in seconds since the epoch.\<close>

type_synonym timestamp = int

definition seconds_of_tod :: "tod \<Rightarrow> int" where
  "seconds_of_tod t = t_hour t * 3600 + t_minute t * 60 + t_second t"

definition month_names :: "string list" where
  "month_names = [''January'', ''February'', ''March'', ''April'', ''May'', ''June'', ''July'',
                  ''August'', ''September'', ''October'', ''November'', ''December'']"

definition weekday_names :: "string list" where
  "weekday_names = [''Sunday'', ''Monday'', ''Tuesday'', ''Wednesday'', ''Thursday'', ''Friday'', ''Saturday'']"

text \<open>\<open>strftime('%B', d)\<close> and \<open>strftime('%A', d)\<close>.\<close>

definition month_name_of :: "date \<Rightarrow> string" where
  "month_name_of d = month_names ! nat (d_month d - 1)"

definition weekday_of :: "date \<Rightarrow> string" where
  "weekday_of d = weekday_names ! nat ((days_from_civil d + 4) mod 7)"

section \<open>The engine's text functions\<close>

text \<open>The patterns of the transform all have the shape \<open>pre(.*?)post\<close> with literal \<open>pre\<close>
  and \<open>post\<close>. The lazy group takes the shortest run of characters, none of them a line
  feed (the dot does not match one), after which \<open>post\<close> follows.\<close>

fun lazy_until :: "string \<Rightarrow> string \<Rightarrow> (string \<times> string) option" where
  "lazy_until post [] = (if post = [] then Some ([], []) else None)"
| "lazy_until post (x # xs) =
     (if prefix post (x # xs) then Some ([], drop (length post) (x # xs))
      else if x = CHR 0x0A then None
      else map_option (\<lambda>(c, r). (x # c, r)) (lazy_until post xs))"

text \<open>A match starting exactly here: the captured group and the text after the match.\<close>

definition match_at :: "string \<Rightarrow> string \<Rightarrow> string \<Rightarrow> (string \<times> string) option" where
  "match_at pre post s = (if prefix pre s then lazy_until post (drop (length pre) s) else None)"

text \<open>The leftmost match.\<close>

fun regexp_first :: "string \<Rightarrow> string \<Rightarrow> string \<Rightarrow> string option" where
  "regexp_first pre post [] = map_option fst (match_at pre post [])"
| "regexp_first pre post (x # xs) =
     (case match_at pre post (x # xs) of
        Some (c, r) \<Rightarrow> Some c
      | None \<Rightarrow> regexp_first pre post xs)"

text \<open>\<open>REGEXP_EXTRACT(s, 'pre(.*?)post', 1)\<close>: group 1 of the leftmost match, the empty
  string when nothing matches.\<close>

definition regexp_extract :: "string \<Rightarrow> string \<Rightarrow> string \<Rightarrow> string" where
  "regexp_extract pre post s = (case regexp_first pre post s of Some c \<Rightarrow> c | None \<Rightarrow> [])"

text \<open>\<open>REGEXP_EXTRACT_ALL(s, 'pre(.*?)post', 1)\<close>: group 1 of every match, left to right,
  each search resuming where the previous match ended.\<close>

function regexp_extract_all :: "string \<Rightarrow> string \<Rightarrow> string \<Rightarrow> string list" where
  "regexp_extract_all pre post [] = []"
| "regexp_extract_all pre post (x # xs) =
     (case match_at pre post (x # xs) of
        Some (c, r) \<Rightarrow>
          (if length r < length (x # xs) then c # regexp_extract_all pre post r
           else regexp_extract_all pre post xs)
      | None \<Rightarrow> regexp_extract_all pre post xs)"
  by pat_completeness auto
termination
  by (relation "measure (\<lambda>(pre, post, s). length s)") auto

text \<open>The bracket tag \<open>[Name "value"]\<close> of a notation blob: the pattern
  \<open>\[Name "(.*?)"\<close>.\<close>

definition tag_open :: "string \<Rightarrow> string" where
  "tag_open name = ''['' @ name @ '' '' @ [CHR 0x22]"

definition regexp_extract_tag :: "string \<Rightarrow> string \<Rightarrow> string" where
  "regexp_extract_tag name pgn = regexp_extract (tag_open name) [CHR 0x22] pgn"

text \<open>The move tokens: the pattern \<open>\. (.*?) {\[\<close>.\<close>

definition move_tokens :: "string \<Rightarrow> string list" where
  "move_tokens pgn = regexp_extract_all ''. '' '' {['' pgn"

text \<open>\<open>REPLACE(s, '.', '/')\<close>.\<close>

definition replace_dot_slash :: "string \<Rightarrow> string" where
  "replace_dot_slash s = map (\<lambda>c. if c = CHR ''.'' then CHR ''/'' else c) s"

subsection \<open>\<open>STRPTIME\<close>\<close>

definition is_digit :: "char \<Rightarrow> bool" where
  "is_digit c = (c \<in> set ''0123456789'')"

definition digit_val :: "char \<Rightarrow> nat" where
  "digit_val c = of_char c - 48"

definition nat_of_digits :: "string \<Rightarrow> nat" where
  "nat_of_digits ds = foldl (\<lambda>acc c. acc * 10 + digit_val c) 0 ds"

text \<open>A numeric field: one digit at least, and every digit that follows.\<close>

definition parse_num :: "string \<Rightarrow> (int \<times> string) option" where
  "parse_num s =
     (let ds = takeWhile is_digit s
      in if ds = [] then None else Some (int (nat_of_digits ds), dropWhile is_digit s))"

definition expect_char :: "char \<Rightarrow> string \<Rightarrow> string option" where
  "expect_char c s = (case s of [] \<Rightarrow> None | x # r \<Rightarrow> if x = c then Some r else None)"

text \<open>Three numeric fields with a literal separator between them and nothing after.\<close>

definition parse3 :: "char \<Rightarrow> string \<Rightarrow> (int \<times> int \<times> int) option" where
  "parse3 sep s =
     do {
       (a, r1) \<leftarrow> parse_num s;
       r2 \<leftarrow> expect_char sep r1;
       (b, r3) \<leftarrow> parse_num r2;
       r4 \<leftarrow> expect_char sep r3;
       (c, r5) \<leftarrow> parse_num r4;
       if r5 = [] then Some (a, b, c) else None
     }"

text \<open>\<open>STRPTIME(s, '%Y/%m/%d')::DATE\<close> and \<open>STRPTIME(s, '%H:%M:%S')::TIME\<close>. \<open>STRPTIME\<close>
  raises on a string that does not follow the format (it is \<open>TRY_STRPTIME\<close> that would
  give NULL).\<close>

definition strptime_date :: "string \<Rightarrow> error + date" where
  "strptime_date s =
     (case parse3 (CHR ''/'') s of
        None \<Rightarrow> Inl InvalidInputError
      | Some (y, m, d) \<Rightarrow>
          (let dt = \<lparr>d_year = y, d_month = m, d_day = d\<rparr>
           in if valid_date dt then Inr dt else Inl InvalidInputError))"

definition strptime_time :: "string \<Rightarrow> error + tod" where
  "strptime_time s =
     (case parse3 (CHR '':'') s of
        None \<Rightarrow> Inl InvalidInputError
      | Some (h, m, sec) \<Rightarrow>
          (let t = \<lparr>t_hour = h, t_minute = m, t_second = sec\<rparr>
           in if valid_tod t then Inr t else Inl InvalidInputError))"

section \<open>Bronze to silver: \<open>transform_json_to_fact_table\<close>\<close>

text \<open>One game of the bronze JSON file, with the fields the query reads. A column of a file
  is nullable, hence \<open>option\<close>; the notation blob is taken as present.\<close>

record raw_game =
  j_url :: "string option"
  j_time_control :: "string option"
  j_rated :: "bool option"
  j_time_class :: "string option"
  j_rules :: "string option"
  j_white_rating :: "int option"
  j_white_result :: "string option"
  j_black_rating :: "int option"
  j_black_result :: "string option"
  j_pgn :: string

text \<open>One row of the silver file.\<close>

record silver =
  game_url :: "string option"
  time_control :: "string option"
  rated :: "bool option"
  time_class :: "string option"
  rules :: "string option"
  white_rating :: "int option"
  white_result :: "string option"
  black_rating :: "int option"
  black_result :: "string option"
  pgn_event :: "string option"
  pgn_site :: "string option"
  game_date :: "date option"
  pgn_white_user :: "string option"
  pgn_black_user :: "string option"
  pgn_result :: "string option"
  pgn_current_position :: "string option"
  pgn_timezone :: "string option"
  pgn_eco :: "string option"
  pgn_eco_url :: "string option"
  start_time :: "timestamp option"
  end_time :: "timestamp option"
  end_game_date :: "date option"
  pgn_raw :: "string option"
  pgn_trans :: "string option"

text \<open>The user-defined functions that \<open>utils/udfs.py\<close> registers with the engine. The module
  is not among the sources, so the pipeline takes them as parameters; each maps a nullable
  argument to a nullable result.\<close>

record udfs =
  format_time_control :: "string option \<Rightarrow> string option"
  extract_opening_name :: "string option \<Rightarrow> string option"
  get_opening_family :: "string option \<Rightarrow> string option"
  get_opening_variation :: "string option \<Rightarrow> string option"
  get_pgn_depth :: "string option \<Rightarrow> int option"
  udf_add_move_numbers :: "string list \<Rightarrow> string option"

text \<open>\<open>pd.to_datetime(date.astype(str) + " " + time.astype(str), format="%Y-%m-%d %H:%M:%S")\<close>:
  the date and the time of day are rendered and read back under the one format, which gives
  the timestamp of that time on that date.\<close>

definition to_datetime :: "date \<Rightarrow> tod \<Rightarrow> timestamp" where
  "to_datetime d t = days_from_civil d * 86400 + seconds_of_tod t"

text \<open>The query and the two \<open>to_datetime\<close> assignments, for one game. The four \<open>STRPTIME\<close>
  calls are evaluated in the order of the select list.\<close>

definition transform_row :: "udfs \<Rightarrow> raw_game \<Rightarrow> error + silver" where
  "transform_row u g =
     (case strptime_date (replace_dot_slash (regexp_extract_tag ''Date'' (j_pgn g))) of
        Inl err \<Rightarrow> Inl err
      | Inr gd \<Rightarrow>
     (case strptime_time (regexp_extract_tag ''StartTime'' (j_pgn g)) of
        Inl err \<Rightarrow> Inl err
      | Inr st \<Rightarrow>
     (case strptime_time (regexp_extract_tag ''EndTime'' (j_pgn g)) of
        Inl err \<Rightarrow> Inl err
      | Inr et \<Rightarrow>
     (case strptime_date (replace_dot_slash (regexp_extract_tag ''EndDate'' (j_pgn g))) of
        Inl err \<Rightarrow> Inl err
      | Inr egd \<Rightarrow>
          Inr \<lparr> game_url = j_url g,
                time_control = j_time_control g,
                rated = j_rated g,
                time_class = j_time_class g,
                rules = j_rules g,
                white_rating = j_white_rating g,
                white_result = j_white_result g,
                black_rating = j_black_rating g,
                black_result = j_black_result g,
                pgn_event = Some (regexp_extract_tag ''Event'' (j_pgn g)),
                pgn_site = Some (regexp_extract_tag ''Site'' (j_pgn g)),
                game_date = Some gd,
                pgn_white_user = Some (regexp_extract_tag ''White'' (j_pgn g)),
                pgn_black_user = Some (regexp_extract_tag ''Black'' (j_pgn g)),
                pgn_result = Some (regexp_extract_tag ''Result'' (j_pgn g)),
                pgn_current_position = Some (regexp_extract_tag ''CurrentPosition'' (j_pgn g)),
                pgn_timezone = Some (regexp_extract_tag ''Timezone'' (j_pgn g)),
                pgn_eco = Some (regexp_extract_tag ''ECO'' (j_pgn g)),
                pgn_eco_url = Some (regexp_extract_tag ''ECOUrl'' (j_pgn g)),
                start_time = Some (to_datetime gd st),
                end_time = Some (to_datetime egd et),
                end_game_date = Some egd,
                pgn_raw = Some (join_sp (move_tokens (j_pgn g))),
                pgn_trans = udf_add_move_numbers u (move_tokens (j_pgn g)) \<rparr>))))"

text \<open>The whole batch: the first row that raises aborts the query.\<close>

fun collect :: "(error + 'a) list \<Rightarrow> error + 'a list" where
  "collect [] = Inr []"
| "collect (Inl err # rs) = Inl err"
| "collect (Inr v # rs) = (case collect rs of Inl err \<Rightarrow> Inl err | Inr vs \<Rightarrow> Inr (v # vs))"

definition transform_json_to_fact_table :: "udfs \<Rightarrow> raw_game list \<Rightarrow> error + silver list" where
  "transform_json_to_fact_table u games = collect (map (transform_row u) games)"

section \<open>The engine's set operations\<close>

text \<open>Tables are lists of rows. The engine fixes no row order for \<open>DISTINCT\<close> and \<open>UNION\<close>;
  the model keeps first occurrences, and the statements below speak of the rows of a
  table as a set or a multiset.\<close>

definition sql_distinct :: "'a list \<Rightarrow> 'a list" where
  "sql_distinct rows = remdups rows"

definition sql_union :: "'a list \<Rightarrow> 'a list \<Rightarrow> 'a list" where
  "sql_union xs ys = remdups (xs @ ys)"

text \<open>\<open>x NOT IN (subquery)\<close> as a \<open>WHERE\<close> condition: the row passes only when the condition
  is TRUE. Over an empty subquery it is TRUE; otherwise a NULL on either side makes it
  NULL or FALSE.\<close>

definition sql_not_in :: "'a option \<Rightarrow> 'a option list \<Rightarrow> bool" where
  "sql_not_in x ys = (ys = [] \<or> (x \<noteq> None \<and> None \<notin> set ys \<and> x \<notin> set ys))"

text \<open>\<open>a = b\<close> as a join condition: TRUE only for two equal values, neither NULL.\<close>

definition sql_eq :: "'a option \<Rightarrow> 'a option \<Rightarrow> bool" where
  "sql_eq a b = (a \<noteq> None \<and> a = b)"

text \<open>\<open>l LEFT JOIN r ON cond\<close>: every left row with each right row that matches it, or once
  with NULLs for the right columns when none does.\<close>

definition left_join :: "('a \<Rightarrow> 'b \<Rightarrow> bool) \<Rightarrow> 'a list \<Rightarrow> 'b list \<Rightarrow> ('a \<times> 'b option) list" where
  "left_join cond ls rs =
     concat (map (\<lambda>l. case filter (cond l) rs of
                         [] \<Rightarrow> [(l, None)]
                       | m # ms \<Rightarrow> map (\<lambda>r. (l, Some r)) (m # ms)) ls)"

text \<open>What a left join leaves of its left side: each left row once per right row that
  matches it, and once when none does.\<close>

definition copies :: "('a \<Rightarrow> 'b \<Rightarrow> bool) \<Rightarrow> 'b list \<Rightarrow> 'a list \<Rightarrow> 'a list" where
  "copies c rs xs = concat (map (\<lambda>x. replicate (max 1 (length (filter (c x) rs))) x) xs)"

section \<open>Gold layer: the four dimension loads\<close>

text \<open>Each load takes the snapshot found in the sink (\<open>None\<close> when the blob does not exist)
  and the rows of the silver file, and gives the snapshot the sink holds after the run.\<close>

subsection \<open>\<open>load_dim_openings\<close>\<close>

record opening_dim =
  dop_pgn_eco_url :: "string option"
  dop_opening_name :: "string option"
  dop_opening_family :: "string option"
  dop_opening_variation :: "string option"
  dop_eco_code :: "string option"

definition opening_row :: "udfs \<Rightarrow> silver \<Rightarrow> opening_dim" where
  "opening_row u r =
     \<lparr> dop_pgn_eco_url = pgn_eco_url r,
       dop_opening_name = extract_opening_name u (pgn_eco_url r),
       dop_opening_family = get_opening_family u (extract_opening_name u (pgn_eco_url r)),
       dop_opening_variation = get_opening_variation u (extract_opening_name u (pgn_eco_url r)),
       dop_eco_code = pgn_eco r \<rparr>"

definition load_dim_openings :: "udfs \<Rightarrow> opening_dim list option \<Rightarrow> silver list \<Rightarrow> opening_dim list" where
  "load_dim_openings u existing src =
     (case existing of
        Some dest \<Rightarrow>
          sql_union
            (sql_distinct (map (opening_row u)
               (filter (\<lambda>r. sql_not_in (pgn_eco_url r) (map dop_pgn_eco_url dest)) src)))
            dest
      | None \<Rightarrow> sql_distinct (map (opening_row u) src))"

subsection \<open>\<open>load_dim_date\<close>\<close>

record date_dim =
  dd_game_date :: "date option"
  dd_year :: "int option"
  dd_month :: "int option"
  dd_month_name :: "string option"
  dd_day :: "int option"
  dd_weekday :: "string option"
  dd_quarter :: int

text \<open>The \<open>CASE\<close> on the month number; a NULL date falls to the \<open>ELSE\<close>.\<close>

definition quarter_of :: "date option \<Rightarrow> int" where
  "quarter_of gd =
     (case gd of
        None \<Rightarrow> 4
      | Some d \<Rightarrow>
          (if 1 \<le> d_month d \<and> d_month d \<le> 3 then 1
           else if 4 \<le> d_month d \<and> d_month d \<le> 6 then 2
           else if 7 \<le> d_month d \<and> d_month d \<le> 9 then 3
           else 4))"

definition date_row :: "silver \<Rightarrow> date_dim" where
  "date_row r =
     \<lparr> dd_game_date = game_date r,
       dd_year = map_option d_year (game_date r),
       dd_month = map_option d_month (game_date r),
       dd_month_name = map_option month_name_of (game_date r),
       dd_day = map_option d_day (game_date r),
       dd_weekday = map_option weekday_of (game_date r),
       dd_quarter = quarter_of (game_date r) \<rparr>"

text \<open>\<open>ORDER BY game_date\<close>, ascending with NULLs last.\<close>

definition date_sort_key :: "date_dim \<Rightarrow> bool \<times> int" where
  "date_sort_key r = (case dd_game_date r of None \<Rightarrow> (True, 0) | Some d \<Rightarrow> (False, days_from_civil d))"

definition load_dim_date :: "date_dim list option \<Rightarrow> silver list \<Rightarrow> date_dim list" where
  "load_dim_date existing src =
     (case existing of
        Some dest \<Rightarrow>
          sql_union
            (sql_distinct (map date_row
               (filter (\<lambda>r. sql_not_in (game_date r) (map dd_game_date dest)) src)))
            dest
      | None \<Rightarrow> sort_key date_sort_key (sql_distinct (map date_row src)))"

subsection \<open>\<open>load_dim_time_control\<close>\<close>

record time_control_dim =
  dtc_time_control :: "string option"
  dtc_time_class :: "string option"

definition time_control_row :: "udfs \<Rightarrow> silver \<Rightarrow> time_control_dim" where
  "time_control_row u r =
     \<lparr> dtc_time_control = format_time_control u (time_control r),
       dtc_time_class = time_class r \<rparr>"

text \<open>In the \<open>WHERE\<close> clause \<open>time_control\<close> is the column of the silver file, the raw code;
  the subquery reads the formatted column of the snapshot. The branch for a missing
  snapshot has no \<open>DISTINCT\<close>.\<close>

definition load_dim_time_control ::
  "udfs \<Rightarrow> time_control_dim list option \<Rightarrow> silver list \<Rightarrow> time_control_dim list" where
  "load_dim_time_control u existing src =
     (case existing of
        Some dest \<Rightarrow>
          sql_union
            (sql_distinct (map (time_control_row u)
               (filter (\<lambda>r. sql_not_in (time_control r) (map dtc_time_control dest)) src)))
            dest
      | None \<Rightarrow> map (time_control_row u) src)"

subsection \<open>\<open>load_dim_results\<close>\<close>

record result_dim =
  dr_result_code :: "string option"
  dr_result :: "string option"
  dr_description :: "string option"

definition result_row :: "string \<Rightarrow> string \<Rightarrow> string \<Rightarrow> result_dim" where
  "result_row c r d = \<lparr> dr_result_code = Some c, dr_result = Some r, dr_description = Some d \<rparr>"

definition dim_results_seed :: "result_dim list" where
  "dim_results_seed =
     [ result_row ''win'' ''Win'' ''Win'',
       result_row ''checkmated'' ''Loss'' ''Checkmated'',
       result_row ''agreed'' ''Draw'' ''Draw agreed'',
       result_row ''repetition'' ''Draw'' ''Draw by repetition'',
       result_row ''timeout'' ''Win'' ''Timeout'',
       result_row ''resigned'' ''Loss'' ''Resigned'',
       result_row ''stalemate'' ''Draw'' ''Stalemate'',
       result_row ''lose'' ''Loss'' ''Lose'',
       result_row ''insufficient'' ''Draw'' ''Insufficient material'',
       result_row ''50move'' ''Draw'' ''Draw by 50-move rule'',
       result_row ''abandoned'' ''Draw'' ''Abandoned'',
       result_row ''kingofthehill'' ''Win'' ''Opponent king reached the hill'',
       result_row ''threecheck'' ''Win'' ''Checked for the 3rd time'',
       result_row ''timevsinsufficient'' ''Draw'' ''Draw by timeout vs insufficient material'',
       result_row ''bughousepartnerlose'' ''Loss'' ''Bughouse partner lost'' ]"

text \<open>The silver file is named but never read. With a snapshot in the sink the function
  selects it and uploads nothing, so the sink keeps it; without one it uploads the fixed
  table.\<close>

definition load_dim_results :: "result_dim list option \<Rightarrow> silver list \<Rightarrow> result_dim list" where
  "load_dim_results existing src =
     (case existing of
        Some dest \<Rightarrow> dest
      | None \<Rightarrow> dim_results_seed)"

section \<open>Gold layer: \<open>load_fact_table\<close>\<close>

record fact =
  f_game_url :: "string option"
  f_game_date :: "date option"
  f_start_time :: "timestamp option"
  f_end_time :: "timestamp option"
  f_game_duration_secs :: "int option"
  f_time_control :: "string option"
  f_my_color :: string
  f_my_username :: "string option"
  f_opponent_username :: "string option"
  f_my_rating :: "int option"
  f_opponent_rating :: "int option"
  f_my_result :: "string option"
  f_opponent_result :: "string option"
  f_game_fen :: "string option"
  f_opening_url :: "string option"
  f_game_pgn :: "string option"
  f_moves :: "int option"
  f_last_updated :: timestamp

text \<open>\<open>date_diff('seconds', a, b)\<close> on timestamps of whole seconds; NULL when either is.\<close>

definition date_diff_seconds :: "timestamp option \<Rightarrow> timestamp option \<Rightarrow> int option" where
  "date_diff_seconds a b =
     (case a of None \<Rightarrow> None | Some x \<Rightarrow> (case b of None \<Rightarrow> None | Some y \<Rightarrow> Some (y - x)))"

text \<open>The condition \<open>pgn_white_user = 'Rhythmbear1'\<close> of every \<open>CASE\<close>; on a NULL it is not
  TRUE and the \<open>ELSE\<close> is taken.\<close>

definition i_am_white :: "silver \<Rightarrow> bool" where
  "i_am_white r = (pgn_white_user r = Some ''Rhythmbear1'')"

definition fct_row :: "udfs \<Rightarrow> timestamp \<Rightarrow> silver \<Rightarrow> fact" where
  "fct_row u exec_date r =
     \<lparr> f_game_url = game_url r,
       f_game_date = game_date r,
       f_start_time = start_time r,
       f_end_time = end_time r,
       f_game_duration_secs = date_diff_seconds (start_time r) (end_time r),
       f_time_control = format_time_control u (time_control r),
       f_my_color = (if i_am_white r then ''white'' else ''black''),
       f_my_username = (if i_am_white r then pgn_white_user r else pgn_black_user r),
       f_opponent_username = (if i_am_white r then pgn_black_user r else pgn_white_user r),
       f_my_rating = (if i_am_white r then white_rating r else black_rating r),
       f_opponent_rating = (if i_am_white r then black_rating r else white_rating r),
       f_my_result = (if i_am_white r then white_result r else black_result r),
       f_opponent_result = (if i_am_white r then black_result r else white_result r),
       f_game_fen = pgn_current_position r,
       f_opening_url = pgn_eco_url r,
       f_game_pgn = pgn_trans r,
       f_moves = get_pgn_depth u (pgn_trans r),
       f_last_updated = exec_date \<rparr>"

text \<open>The five left joins, in the order of the query, and the projection \<open>fact.*\<close>.\<close>

definition fact_join ::
  "fact list \<Rightarrow> date_dim list \<Rightarrow> opening_dim list \<Rightarrow> result_dim list \<Rightarrow> time_control_dim list \<Rightarrow> fact list" where
  "fact_join fct dim_date dim_openings dim_results dim_time_control =
     (let j1 = left_join (\<lambda>f d. sql_eq (f_game_date f) (dd_game_date d)) fct dim_date;
          j2 = left_join (\<lambda>(f, _) d. sql_eq (f_opening_url f) (dop_pgn_eco_url d)) j1 dim_openings;
          j3 = left_join (\<lambda>((f, _), _) d. sql_eq (f_my_result f) (dr_result_code d)) j2 dim_results;
          j4 = left_join (\<lambda>(((f, _), _), _) d. sql_eq (f_opponent_result f) (dr_result_code d)) j3 dim_results;
          j5 = left_join (\<lambda>((((f, _), _), _), _) d. sql_eq (f_time_control f) (dtc_time_control d)) j4 dim_time_control
      in map (\<lambda>(((((f, _), _), _), _), _). f) j5)"

text \<open>\<open>ROW_NUMBER() OVER (PARTITION BY game_url ORDER BY last_updated DESC)\<close> and
  \<open>WHERE rn = 1\<close>. Row number 1 of a partition goes to a row whose \<open>last_updated\<close> is the
  greatest there. Which one, among several such rows, the engine does not say: \<open>choice\<close>
  stands for its pick, an index into the candidates.\<close>

definition partition_of :: "string option \<Rightarrow> fact list \<Rightarrow> fact list" where
  "partition_of url rows = filter (\<lambda>r. f_game_url r = url) rows"

definition latest_rows :: "fact list \<Rightarrow> fact list" where
  "latest_rows p = filter (\<lambda>r. list_all (\<lambda>r'. f_last_updated r' \<le> f_last_updated r) p) p"

definition row_number_one :: "(fact list \<Rightarrow> nat) \<Rightarrow> fact list \<Rightarrow> fact" where
  "row_number_one choice p = (let ms = latest_rows p in ms ! (choice ms mod length ms))"

definition dedup_latest :: "(fact list \<Rightarrow> nat) \<Rightarrow> fact list \<Rightarrow> fact list" where
  "dedup_latest choice both_tables =
     map (\<lambda>url. row_number_one choice (partition_of url both_tables))
         (remdups (map f_game_url both_tables))"

text \<open>The function: the four dimension files must be there to be read; the previous fact
  snapshot may be missing, and then the joined batch is uploaded as it is.\<close>

definition load_fact_table ::
  "udfs \<Rightarrow> timestamp \<Rightarrow> (fact list \<Rightarrow> nat) \<Rightarrow> fact list option \<Rightarrow>
   date_dim list option \<Rightarrow> opening_dim list option \<Rightarrow> result_dim list option \<Rightarrow>
   time_control_dim list option \<Rightarrow> silver list \<Rightarrow> error + fact list" where
  "load_fact_table u exec_date choice prev dim_date dim_openings dim_results dim_time_control src =
     (case (dim_date, dim_openings, dim_results, dim_time_control) of
        (Some dd, Some dop, Some dr, Some dtc) \<Rightarrow>
          (let fct = map (fct_row u exec_date) src;
               fact_table = fact_join fct dd dop dr dtc
           in case prev of
                Some prev_fact_table \<Rightarrow> Inr (dedup_latest choice (prev_fact_table @ fact_table))
              | None \<Rightarrow> Inr fact_table)
      | _ \<Rightarrow> Inl IOError)"

section \<open>Example data\<close>

text \<open>An HTTP client that answers every request with 404, and a storage account that is up.\<close>

definition env404 :: "string env" where
  "env404 = \<lparr> http_get = (\<lambda>url. Inr \<lparr> status_code = 404, json = Inl JSONDecodeError \<rparr>), wasb_up = True \<rparr>"

text \<open>Stand-ins for the user-defined functions: the formatters pass their argument through,
  the move numbering is the one modelled above.\<close>

definition udfs0 :: udfs where
  "udfs0 = \<lparr> format_time_control = (\<lambda>x. x),
             extract_opening_name = (\<lambda>x. x),
             get_opening_family = (\<lambda>x. x),
             get_opening_variation = (\<lambda>x. None),
             get_pgn_depth = (\<lambda>x. None),
             udf_add_move_numbers = (\<lambda>ts. Some (add_move_numbers ts)) \<rparr>"

text \<open>A ten-minute game of 31 January 2024, from 23:58:00 to 00:03:00 of the next day, as a
  row of the silver file; the URL and the time-control code vary.\<close>

definition silver_game :: "string \<Rightarrow> string \<Rightarrow> silver" where
  "silver_game url tc =
     \<lparr> game_url = Some url,
       time_control = Some tc,
       rated = Some True,
       time_class = Some ''rapid'',
       rules = Some ''chess'',
       white_rating = Some 1500,
       white_result = Some ''win'',
       black_rating = Some 1480,
       black_result = Some ''resigned'',
       pgn_event = Some ''Live Chess'',
       pgn_site = Some ''Chess.com'',
       game_date = Some \<lparr>d_year = 2024, d_month = 1, d_day = 31\<rparr>,
       pgn_white_user = Some ''Rhythmbear1'',
       pgn_black_user = Some ''opponent'',
       pgn_result = Some ''1-0'',
       pgn_current_position = Some ''8/8/8/8/8/8/8/8 w - -'',
       pgn_timezone = Some ''UTC'',
       pgn_eco = Some ''C50'',
       pgn_eco_url = Some ''https://www.chess.com/openings/Italian-Game'',
       start_time = Some 1706745480,
       end_time = Some 1706745780,
       end_game_date = Some \<lparr>d_year = 2024, d_month = 2, d_day = 1\<rparr>,
       pgn_raw = Some ''e4 e5'',
       pgn_trans = Some ''1. e4 e5'' \<rparr>"

definition two_games :: "silver list" where
  "two_games = [silver_game ''https://www.chess.com/game/live/1'' ''600'',
                silver_game ''https://www.chess.com/game/live/2'' ''600'']"

text \<open>Notation blobs: one tag per line, then the moves with their clock annotations. The
  first is a game across midnight; the second has no \<open>Date\<close> tag.\<close>

definition tag_line :: "string \<Rightarrow> string \<Rightarrow> string" where
  "tag_line name v = tag_open name @ v @ [CHR 0x22] @ '']'' @ [CHR 0x0A]"

definition pgn_moves :: string where
  "pgn_moves = [CHR 0x0A] @ ''1. e4 {[%clk 0:09:59]} 1... e5 {[%clk 0:09:58]} 2. Nf3 {[%clk 0:09:57]} 1-0'' @ [CHR 0x0A]"

definition pgn_midnight :: string where
  "pgn_midnight =
     tag_line ''Event'' ''Live Chess'' @ tag_line ''Site'' ''Chess.com'' @
     tag_line ''Date'' ''2024.01.31'' @ tag_line ''White'' ''Rhythmbear1'' @
     tag_line ''Black'' ''opponent'' @ tag_line ''Result'' ''1-0'' @
     tag_line ''ECO'' ''C50'' @
     tag_line ''ECOUrl'' ''https://www.chess.com/openings/Italian-Game'' @
     tag_line ''StartTime'' ''23:58:00'' @ tag_line ''EndDate'' ''2024.02.01'' @
     tag_line ''EndTime'' ''00:03:00'' @ pgn_moves"

definition pgn_no_date :: string where
  "pgn_no_date =
     tag_line ''Event'' ''Live Chess'' @ tag_line ''Site'' ''Chess.com'' @
     tag_line ''White'' ''Rhythmbear1'' @
     tag_line ''Black'' ''opponent'' @ tag_line ''Result'' ''1-0'' @
     tag_line ''StartTime'' ''23:58:00'' @ tag_line ''EndDate'' ''2024.02.01'' @
     tag_line ''EndTime'' ''00:03:00'' @ pgn_moves"

text \<open>A game of the bronze file around a blob.\<close>

definition raw_game_of :: "string \<Rightarrow> raw_game" where
  "raw_game_of pgn =
     \<lparr> j_url = Some ''https://www.chess.com/game/live/1'',
       j_time_control = Some ''600'',
       j_rated = Some True,
       j_time_class = Some ''rapid'',
       j_rules = Some ''chess'',
       j_white_rating = Some 1500,
       j_white_result = Some ''win'',
       j_black_rating = Some 1480,
       j_black_result = Some ''resigned'',
       j_pgn = pgn \<rparr>"

text \<open>A second game, of another opening and day, lost by a result code the fixed results
  table does not list.\<close>

definition silver_sicilian :: silver where
  "silver_sicilian =
     (silver_game ''https://www.chess.com/game/live/3'' ''180+2'')
       \<lparr> pgn_eco := Some ''B20'',
         pgn_eco_url := Some ''https://www.chess.com/openings/Sicilian-Defense'',
         game_date := Some \<lparr>d_year = 2024, d_month = 2, d_day = 1\<rparr>,
         black_result := Some ''forfeit'' \<rparr>"

section \<open>Properties of the fetch-and-load step\<close>

lemma bronze_blobname_2024_1: "bronze_blobname 2024 1 = ''bronze/2024-01-games.json''"
  by code_simp

text \<open>
  C10. Whenever \<open>extract_and_load_chess_data\<close> returns, it returns the boolean \<open>True\<close>, never
  a list of games; and it does return (with \<open>True\<close>) for every response of the HTTP client,
  whatever its status code and however many games it carries, as long as no collaborator
  raises: the client answers, a 200 body decodes, and the upload is accepted.
\<close>

theorem extract_and_load_returns_True:
  "(extract_and_load_chess_data e store username year month = Inr (v, store') \<longrightarrow> v = PyBool True)
   \<and> (http_get e (api_url username year month) = Inr response
        \<and> (status_code response = 200 \<longrightarrow> (\<exists>data. json response = Inr data))
        \<and> wasb_up e
      \<longrightarrow> (\<exists>st. extract_and_load_chess_data e store username year month = Inr (PyBool True, st)))"
  by (auto simp: extract_and_load_chess_data_def pulled_data_of_def load_file_def
           split: sum.splits if_splits)

theorem extract_and_load_returns_True_witness:
  "http_get env404 (api_url ''Rhythmbear1'' 2024 1) = Inr \<lparr> status_code = 404, json = Inl JSONDecodeError \<rparr>
   \<and> wasb_up env404
   \<and> (\<exists>st. extract_and_load_chess_data env404 Map.empty ''Rhythmbear1'' 2024 1 = Inr (PyBool True, st))"
  using extract_and_load_returns_True
    [of env404 Map.empty "''Rhythmbear1''" 2024 1 "PyBool True" Map.empty
        "\<lparr> status_code = 404, json = Inl JSONDecodeError \<rparr>"]
  by (simp add: env404_def)

text \<open>
  C4, as the spec states it, fails: a 404 answer does not abort the run. The step returns
  \<open>True\<close> and the bronze blob of the batch, which held one game, is overwritten with the
  empty list.
\<close>

theorem non_200_overwrites_bronze_counterexample:
  "extract_and_load_chess_data env404 [''bronze/2024-01-games.json'' \<mapsto> [''game1'']] ''Rhythmbear1'' 2024 1
     = Inr (PyBool True, [''bronze/2024-01-games.json'' \<mapsto> []])"
  by (simp add: extract_and_load_chess_data_def pulled_data_of_def load_file_def env404_def
        bronze_blobname_2024_1)

text \<open>
  C4, amended. When the fetch returns a response whose status is not 200 and the storage
  account accepts the upload, the step treats the response as an empty game list: it
  overwrites the bronze blob of that (year, month) with the empty list and returns \<open>True\<close>.
\<close>

theorem non_200_lands_empty_list:
  "http_get e (api_url username year month) = Inr response \<Longrightarrow>
   status_code response \<noteq> 200 \<Longrightarrow> wasb_up e \<Longrightarrow>
   extract_and_load_chess_data e store username year month
     = Inr (PyBool True, store(bronze_blobname year month \<mapsto> []))"
  by (simp add: extract_and_load_chess_data_def pulled_data_of_def load_file_def)

theorem non_200_lands_empty_list_witness:
  "extract_and_load_chess_data env404 Map.empty ''Rhythmbear1'' 2024 1
     = Inr (PyBool True, [bronze_blobname 2024 1 \<mapsto> []])"
  using non_200_lands_empty_list
    [of env404 "''Rhythmbear1''" 2024 1 "\<lparr> status_code = 404, json = Inl JSONDecodeError \<rparr>" Map.empty]
  by (simp add: env404_def)

section \<open>Properties of the move-numbering function\<close>

lemma str_nat_small:
  "str_nat (Suc 0) = ''1''" "str_nat (Suc (Suc 0)) = ''2''" "str_nat (Suc (Suc (Suc 0))) = ''3''"
  by (simp_all add: str_nat.simps [of "Suc 0"] str_nat.simps [of "Suc (Suc 0)"]
        str_nat.simps [of "Suc (Suc (Suc 0))"] digit_char_def)

lemma length_number_moves: "length (number_moves n ts) = (length ts + 1) div 2"
  by (induction n ts rule: number_moves.induct) auto

lemma nth_number_moves:
  "i < length (number_moves n ts) \<Longrightarrow>
   number_moves n ts ! i =
     str_nat (n + i) @ ''. '' @ ts ! (2 * i) @ (if 2 * i + 1 < length ts then '' '' @ ts ! (2 * i + 1) else [])"
proof (induction n ts arbitrary: i rule: number_moves.induct)
  case (1 n)
  then show ?case by simp
next
  case (2 n w)
  then show ?case by simp
next
  case (3 n w b rest)
  show ?case
  proof (cases i)
    case 0
    then show ?thesis by simp
  next
    case (Suc j)
    with 3 show ?thesis by simp
  qed
qed

lemma number_moves_closed_form:
  "number_moves n ts =
     map (\<lambda>i. str_nat (n + i) @ ''. '' @ ts ! (2 * i)
                 @ (if 2 * i + 1 < length ts then '' '' @ ts ! (2 * i + 1) else []))
         [0..<(length ts + 1) div 2]"
  by (rule nth_equalityI) (simp_all add: length_number_moves nth_number_moves)

text \<open>
  C6. The move-numbering transform depends on the token list alone. Move \<open>i + 1\<close> is the
  number, a dot, token \<open>2i\<close> (white) and, when there is one, token \<open>2i + 1\<close> (black); the
  moves are joined by single spaces. For tokens \<open>[a, b, c, d, e]\<close> the result is
  \<open>1. a b 2. c d 3. e\<close>.
\<close>

theorem add_move_numbers_interleaves:
  "add_move_numbers tokens =
     join_sp (map (\<lambda>i. str_nat (1 + i) @ ''. '' @ tokens ! (2 * i)
                          @ (if 2 * i + 1 < length tokens then '' '' @ tokens ! (2 * i + 1) else []))
                  [0..<(length tokens + 1) div 2])
   \<and> add_move_numbers [a, b, c, d, e]
       = ''1. '' @ a @ '' '' @ b @ '' 2. '' @ c @ '' '' @ d @ '' 3. '' @ e"
proof
  show "add_move_numbers tokens =
     join_sp (map (\<lambda>i. str_nat (1 + i) @ ''. '' @ tokens ! (2 * i)
                          @ (if 2 * i + 1 < length tokens then '' '' @ tokens ! (2 * i + 1) else []))
                  [0..<(length tokens + 1) div 2])"
    unfolding add_move_numbers_def by (subst number_moves_closed_form) (rule refl)
  show "add_move_numbers [a, b, c, d, e]
       = ''1. '' @ a @ '' '' @ b @ '' 2. '' @ c @ '' '' @ d @ '' 3. '' @ e"
    by (simp add: add_move_numbers_def str_nat_small)
qed

theorem add_move_numbers_interleaves_witness:
  "add_move_numbers [''e4'', ''e5'', ''Nf3'', ''Nc6'', ''Bb5''] = ''1. e4 e5 2. Nf3 Nc6 3. Bb5''"
  using add_move_numbers_interleaves [of "[]" "''e4''" "''e5''" "''Nf3''" "''Nc6''" "''Bb5''"]
  by simp

section \<open>Properties of the fact-table load\<close>

subsection \<open>The left joins\<close>

lemma left_join_Cons:
  "left_join cond (l # ls) rs =
     (if filter (cond l) rs = [] then [(l, None)] else map (\<lambda>r. (l, Some r)) (filter (cond l) rs))
     @ left_join cond ls rs"
  by (simp add: left_join_def split: list.splits)

lemma map_fst_left_join:
  "map fst (left_join cond ls rs) =
     concat (map (\<lambda>l. replicate (max 1 (length (filter (cond l) rs))) l) ls)"
proof (induction ls)
  case Nil
  then show ?case by (simp add: left_join_def)
next
  case (Cons l ls)
  have "map fst (map (\<lambda>r. (l, Some r)) xs) = replicate (length xs) l" for xs :: "'b list"
    by (induction xs) auto
  with Cons show ?case
    by (auto simp: left_join_Cons max_def Suc_le_eq)
qed

lemma mset_left_join: "mset ls \<subseteq># mset (map fst (left_join cond ls rs))"
proof (induction ls)
  case Nil
  then show ?case by simp
next
  case (Cons l ls)
  let ?M = "mset (map fst (left_join cond ls rs))"
  obtain k where k: "max 1 (length (filter (cond l) rs)) = Suc k"
    by (cases "max 1 (length (filter (cond l) rs))") auto
  have "map fst (left_join cond (l # ls) rs)
          = replicate (max 1 (length (filter (cond l) rs))) l @ map fst (left_join cond ls rs)"
    unfolding map_fst_left_join by simp
  then have eq: "mset (map fst (left_join cond (l # ls) rs)) = add_mset l (replicate_mset k l + ?M)"
    unfolding k by simp
  have "mset (l # ls) \<subseteq># add_mset l ?M"
    using Cons by simp
  also have "\<dots> \<subseteq># add_mset l (replicate_mset k l + ?M)"
    by simp
  finally show ?case
    unfolding eq .
qed

lemma set_left_join: "set (map fst (left_join cond ls rs)) = set ls"
  by (auto simp: map_fst_left_join)

lemma left_join_unmatched:
  "l \<in> set ls \<Longrightarrow> \<forall>d \<in> set rs. \<not> cond l d \<Longrightarrow> (l, None) \<in> set (left_join cond ls rs)"
proof (induction ls)
  case Nil
  then show ?case by simp
next
  case (Cons a ls)
  show ?case
  proof (cases "l = a")
    case True
    with Cons.prems have "filter (cond a) rs = []" by (simp add: filter_empty_conv)
    then show ?thesis using True by (simp add: left_join_Cons)
  next
    case False
    with Cons show ?thesis by (simp add: left_join_Cons)
  qed
qed

lemma mset_left_join_step:
  "mset (map g ys) \<subseteq># mset (map (g \<circ> fst) (left_join cond ys rs))"
proof -
  have "image_mset g (mset ys) \<subseteq># image_mset g (mset (map fst (left_join cond ys rs)))"
    using mset_left_join [of ys cond rs] by (rule image_mset_subseteq_mono)
  then show ?thesis
    by (simp add: multiset.map_comp)
qed

lemma set_left_join_step:
  "set (map (g \<circ> fst) (left_join cond ys rs)) = set (map g ys)"
proof -
  have "fst ` set (left_join cond ys rs) = set ys"
    using set_left_join [of cond ys rs] by simp
  then have "g ` fst ` set (left_join cond ys rs) = g ` set ys"
    by simp
  then show ?thesis
    by (simp add: image_comp)
qed

lemma fact_join_proj:
  "fact_join fct dd dop dr dtc =
     map (fst \<circ> fst \<circ> fst \<circ> fst \<circ> fst)
      (left_join (\<lambda>((((f, _), _), _), _) d. sql_eq (f_time_control f) (dtc_time_control d))
       (left_join (\<lambda>(((f, _), _), _) d. sql_eq (f_opponent_result f) (dr_result_code d))
         (left_join (\<lambda>((f, _), _) d. sql_eq (f_my_result f) (dr_result_code d))
           (left_join (\<lambda>(f, _) d. sql_eq (f_opening_url f) (dop_pgn_eco_url d))
             (left_join (\<lambda>f d. sql_eq (f_game_date f) (dd_game_date d)) fct dd)
             dop) dr) dr) dtc)"
  by (simp add: fact_join_def Let_def split_def comp_def)

lemma mset_fact_join: "mset fct \<subseteq># mset (fact_join fct dd dop dr dtc)"
proof -
  define j1 where "j1 = left_join (\<lambda>f d. sql_eq (f_game_date f) (dd_game_date d)) fct dd"
  define j2 where "j2 = left_join (\<lambda>(f, _) d. sql_eq (f_opening_url f) (dop_pgn_eco_url d)) j1 dop"
  define j3 where "j3 = left_join (\<lambda>((f, _), _) d. sql_eq (f_my_result f) (dr_result_code d)) j2 dr"
  define j4 where "j4 = left_join (\<lambda>(((f, _), _), _) d. sql_eq (f_opponent_result f) (dr_result_code d)) j3 dr"
  define j5 where "j5 = left_join (\<lambda>((((f, _), _), _), _) d. sql_eq (f_time_control f) (dtc_time_control d)) j4 dtc"
  have "mset fct \<subseteq># mset (map fst j1)"
    unfolding j1_def by (rule mset_left_join)
  also have "\<dots> \<subseteq># mset (map (fst \<circ> fst) j2)"
    unfolding j2_def by (rule mset_left_join_step)
  also have "\<dots> \<subseteq># mset (map (fst \<circ> fst \<circ> fst) j3)"
    unfolding j3_def by (rule mset_left_join_step)
  also have "\<dots> \<subseteq># mset (map (fst \<circ> fst \<circ> fst \<circ> fst) j4)"
    unfolding j4_def by (rule mset_left_join_step)
  also have "\<dots> \<subseteq># mset (map (fst \<circ> fst \<circ> fst \<circ> fst \<circ> fst) j5)"
    unfolding j5_def by (rule mset_left_join_step)
  finally show ?thesis
    unfolding fact_join_proj j1_def j2_def j3_def j4_def j5_def .
qed

lemma set_fact_join: "set (fact_join fct dd dop dr dtc) = set fct"
  unfolding fact_join_proj
  by (simp only: set_left_join_step set_left_join)


subsection \<open>The deduplication\<close>

lemma latest_rows_subset: "set (latest_rows p) \<subseteq> set p"
  by (auto simp: latest_rows_def)

lemma latest_rows_max:
  "r \<in> set (latest_rows p) \<Longrightarrow> r' \<in> set p \<Longrightarrow> f_last_updated r' \<le> f_last_updated r"
  by (auto simp: latest_rows_def list_all_iff)

lemma latest_rows_nonempty:
  assumes "p \<noteq> []"
  shows "latest_rows p \<noteq> []"
proof -
  let ?T = "f_last_updated ` set p"
  have fin: "finite ?T" and ne: "?T \<noteq> {}" using assms by auto
  then have "Max ?T \<in> ?T" by (rule Max_in)
  then obtain r where r: "r \<in> set p" "f_last_updated r = Max ?T" by auto
  have "\<forall>r' \<in> set p. f_last_updated r' \<le> f_last_updated r"
    using r fin by simp
  with r(1) have "r \<in> set (latest_rows p)"
    by (simp add: latest_rows_def list_all_iff)
  then show ?thesis by auto
qed

lemma row_number_one_in:
  assumes "p \<noteq> []"
  shows "row_number_one choice p \<in> set (latest_rows p)"
proof -
  have "0 < length (latest_rows p)"
    using latest_rows_nonempty [OF assms] by simp
  then show ?thesis
    by (simp add: row_number_one_def Let_def)
qed

lemma partition_of_nonempty:
  "url \<in> set (map f_game_url rows) \<Longrightarrow> partition_of url rows \<noteq> []"
  by (auto simp: partition_of_def filter_empty_conv)

lemma row_number_one_partition:
  assumes "url \<in> set (map f_game_url rows)"
  shows "row_number_one choice (partition_of url rows) \<in> set rows"
    and "f_game_url (row_number_one choice (partition_of url rows)) = url"
    and "\<forall>r' \<in> set rows. f_game_url r' = url \<longrightarrow>
           f_last_updated r' \<le> f_last_updated (row_number_one choice (partition_of url rows))"
proof -
  let ?w = "row_number_one choice (partition_of url rows)"
  have w: "?w \<in> set (latest_rows (partition_of url rows))"
    by (rule row_number_one_in [OF partition_of_nonempty [OF assms]])
  then have "?w \<in> set (partition_of url rows)"
    using latest_rows_subset by blast
  then show "?w \<in> set rows" and "f_game_url ?w = url"
    by (simp_all add: partition_of_def)
  show "\<forall>r' \<in> set rows. f_game_url r' = url \<longrightarrow> f_last_updated r' \<le> f_last_updated ?w"
    using latest_rows_max [OF w] by (simp add: partition_of_def)
qed

lemma map_url_dedup_latest:
  "map f_game_url (dedup_latest choice rows) = remdups (map f_game_url rows)"
  unfolding dedup_latest_def map_map
  by (rule map_idI) (simp add: row_number_one_partition(2))

lemma distinct_dedup_latest: "distinct (map f_game_url (dedup_latest choice rows))"
  by (simp add: map_url_dedup_latest)

lemma set_dedup_latest_subset: "set (dedup_latest choice rows) \<subseteq> set rows"
  by (auto simp: dedup_latest_def row_number_one_partition(1))

lemma filter_distinct_key:
  "distinct (map k xs) \<Longrightarrow> x \<in> set xs \<Longrightarrow> filter (\<lambda>y. k y = k x) xs = [x]"
proof (induction xs)
  case Nil
  then show ?case by simp
next
  case (Cons a xs)
  show ?case
  proof (cases "x = a")
    case True
    have "k a \<notin> k ` set xs"
      using Cons.prems(1) by simp
    then have "\<forall>y \<in> set xs. k y \<noteq> k a"
      by (metis imageI)
    then have "filter (\<lambda>y. k y = k a) xs = []"
      by (simp add: filter_empty_conv)
    with True show ?thesis by simp
  next
    case False
    with Cons.prems have "x \<in> set xs" "k a \<noteq> k x" by auto
    with Cons show ?thesis by simp
  qed
qed

lemma dedup_latest_strict_max:
  assumes r2: "r2 \<in> set rows"
    and lt: "\<forall>r \<in> set rows. f_game_url r = f_game_url r2 \<and> r \<noteq> r2 \<longrightarrow> f_last_updated r < f_last_updated r2"
  shows "filter (\<lambda>r. f_game_url r = f_game_url r2) (dedup_latest choice rows) = [r2]"
proof -
  let ?u = "f_game_url r2"
  let ?w = "row_number_one choice (partition_of ?u rows)"
  have u: "?u \<in> set (map f_game_url rows)" using r2 by auto
  have "?w = r2"
  proof (rule ccontr)
    assume ne: "?w \<noteq> r2"
    have "?w \<in> set rows" "f_game_url ?w = ?u"
      using row_number_one_partition(1,2) [OF u] by auto
    with lt ne have "f_last_updated ?w < f_last_updated r2" by blast
    moreover have "f_last_updated r2 \<le> f_last_updated ?w"
      using row_number_one_partition(3) [OF u] r2 by blast
    ultimately show False by simp
  qed
  moreover have "?w \<in> set (dedup_latest choice rows)"
    using u by (auto simp: dedup_latest_def)
  ultimately have "r2 \<in> set (dedup_latest choice rows)" by simp
  then show ?thesis
    using filter_distinct_key [OF distinct_dedup_latest, of r2 choice rows] by simp
qed


lemma dedup_latest_pair:
  assumes "f_game_url r1 = f_game_url r2" "f_last_updated r1 < f_last_updated r2"
  shows "dedup_latest choice [r1, r2] = [r2]" "dedup_latest choice [r2, r1] = [r2]"
proof -
  have sel: "filter (\<lambda>r. f_game_url r = f_game_url r2) (dedup_latest choice rows) = [r2]"
    if "rows = [r1, r2] \<or> rows = [r2, r1]" for rows
    using that assms by (intro dedup_latest_strict_max) auto
  have all: "filter (\<lambda>r. f_game_url r = f_game_url r2) (dedup_latest choice rows) = dedup_latest choice rows"
    if "rows = [r1, r2] \<or> rows = [r2, r1]" for rows
  proof -
    have "set (map f_game_url (dedup_latest choice rows)) = {f_game_url r2}"
      unfolding map_url_dedup_latest using that assms(1) by auto
    then have "\<forall>r \<in> set (dedup_latest choice rows). f_game_url r = f_game_url r2"
      by auto
    then show ?thesis by simp
  qed
  show "dedup_latest choice [r1, r2] = [r2]" using sel [of "[r1, r2]"] all [of "[r1, r2]"] by simp
  show "dedup_latest choice [r2, r1] = [r2]" using sel [of "[r2, r1]"] all [of "[r2, r1]"] by simp
qed

text \<open>
  C7. The join against the four dimension snapshots never drops a row of the batch: every
  row of \<open>fct\<close> is in the joined table at least as often as in \<open>fct\<close>, and the joined
  table has no other rows; in particular the fact row of every silver row is there. A left
  row that matches no row of a dimension is kept, with NULLs for that dimension.
\<close>

theorem fact_join_keeps_every_row:
  "mset fct \<subseteq># mset (fact_join fct dd dop dr dtc)
   \<and> set (fact_join fct dd dop dr dtc) = set fct
   \<and> (r \<in> set src \<longrightarrow>
        fct_row u exec_date r \<in> set (fact_join (map (fct_row u exec_date) src) dd dop dr dtc))
   \<and> (l \<in> set ls \<and> (\<forall>d \<in> set rs. \<not> cond l d) \<longrightarrow> (l, None) \<in> set (left_join cond ls rs))"
proof (intro conjI impI)
  show "mset fct \<subseteq># mset (fact_join fct dd dop dr dtc)" by (rule mset_fact_join)
  show "set (fact_join fct dd dop dr dtc) = set fct" by (rule set_fact_join)
  show "fct_row u exec_date r \<in> set (fact_join (map (fct_row u exec_date) src) dd dop dr dtc)"
    if "r \<in> set src" using that by (simp add: set_fact_join)
  show "(l, None) \<in> set (left_join cond ls rs)" if "l \<in> set ls \<and> (\<forall>d \<in> set rs. \<not> cond l d)"
    using that by (simp add: left_join_unmatched)
qed

theorem fact_join_keeps_every_row_witness:
  "fct_row udfs0 200 (silver_game ''u'' ''600'')
     \<in> set (fact_join (map (fct_row udfs0 200) [silver_game ''u'' ''600'']) [] [] [] [])
   \<and> (fct_row udfs0 200 (silver_game ''u'' ''600''), None)
     \<in> set (left_join (\<lambda>f d. sql_eq (f_game_date f) (dd_game_date d))
               [fct_row udfs0 200 (silver_game ''u'' ''600'')] [])"
  using fact_join_keeps_every_row
    [of "[]" "[]" "[]" "[]" "[]" "silver_game ''u'' ''600''" "[silver_game ''u'' ''600'']" udfs0 200
        "fct_row udfs0 200 (silver_game ''u'' ''600'')" "[fct_row udfs0 200 (silver_game ''u'' ''600'')]"
        "[]" "\<lambda>f d. sql_eq (f_game_date f) (dd_game_date d)"]
  by simp blast

text \<open>
  C1. With a previous fact snapshot: when a row \<open>r2\<close> of the union of the previous snapshot
  and the batch has a \<open>last_updated\<close> greater than that of every other row with its
  \<open>game_url\<close>, the merged table has exactly one row with that \<open>game_url\<close>, and it is
  \<open>r2\<close>, whichever way the engine breaks ties. For two rows with one \<open>game_url\<close> and
  \<open>last_updated\<close> T1 < T2, in either order, the merge leaves the row of T2.
\<close>

theorem fact_merge_keeps_latest:
  "(r2 \<in> set prev \<union> fct_row u exec_date ` set src \<and>
    (\<forall>r \<in> set prev \<union> fct_row u exec_date ` set src.
        f_game_url r = f_game_url r2 \<and> r \<noteq> r2 \<longrightarrow> f_last_updated r < f_last_updated r2)
    \<longrightarrow> (\<exists>new. load_fact_table u exec_date choice (Some prev) (Some dd) (Some dop) (Some dr) (Some dtc) src
                  = Inr new
              \<and> filter (\<lambda>r. f_game_url r = f_game_url r2) new = [r2]))
   \<and> (f_game_url r1 = f_game_url r2 \<and> f_last_updated r1 < f_last_updated r2
      \<longrightarrow> dedup_latest choice [r1, r2] = [r2] \<and> dedup_latest choice [r2, r1] = [r2])"
proof (intro conjI impI)
  assume a: "r2 \<in> set prev \<union> fct_row u exec_date ` set src \<and>
    (\<forall>r \<in> set prev \<union> fct_row u exec_date ` set src.
        f_game_url r = f_game_url r2 \<and> r \<noteq> r2 \<longrightarrow> f_last_updated r < f_last_updated r2)"
  let ?both = "prev @ fact_join (map (fct_row u exec_date) src) dd dop dr dtc"
  have s: "set ?both = set prev \<union> fct_row u exec_date ` set src"
    by (simp add: set_fact_join)
  have "filter (\<lambda>r. f_game_url r = f_game_url r2) (dedup_latest choice ?both) = [r2]"
    by (rule dedup_latest_strict_max) (use a s in auto)
  then show "\<exists>new. load_fact_table u exec_date choice (Some prev) (Some dd) (Some dop) (Some dr) (Some dtc) src
                  = Inr new
              \<and> filter (\<lambda>r. f_game_url r = f_game_url r2) new = [r2]"
    by (simp add: load_fact_table_def)
next
  assume "f_game_url r1 = f_game_url r2 \<and> f_last_updated r1 < f_last_updated r2"
  then show "dedup_latest choice [r1, r2] = [r2]" "dedup_latest choice [r2, r1] = [r2]"
    by (simp_all add: dedup_latest_pair)
qed

lemma fct_row_sel [simp]:
  "f_game_url (fct_row u e r) = game_url r" "f_last_updated (fct_row u e r) = e"
  by (simp_all add: fct_row_def)

theorem fact_merge_keeps_latest_witness:
  "(\<exists>new. load_fact_table udfs0 200 (\<lambda>ms. 0) (Some [fct_row udfs0 100 (silver_game ''u'' ''600'')])
             (Some []) (Some []) (Some []) (Some []) [silver_game ''u'' ''600''] = Inr new
        \<and> filter (\<lambda>r. f_game_url r = Some ''u'') new = [fct_row udfs0 200 (silver_game ''u'' ''600'')])
   \<and> dedup_latest (\<lambda>ms. 0) [fct_row udfs0 100 (silver_game ''u'' ''600''),
                             fct_row udfs0 200 (silver_game ''u'' ''600'')]
       = [fct_row udfs0 200 (silver_game ''u'' ''600'')]"
  using fact_merge_keeps_latest
    [of "fct_row udfs0 200 (silver_game ''u'' ''600'')" "[fct_row udfs0 100 (silver_game ''u'' ''600'')]"
        udfs0 200 "[silver_game ''u'' ''600'']" "\<lambda>ms. 0" "[]" "[]" "[]" "[]"
        "fct_row udfs0 100 (silver_game ''u'' ''600'')"]
  by (simp add: silver_game_def)

lemma later_runs_one_row_per_url:
  assumes "load_fact_table u e choice (Some prev) (Some dd) (Some dop) (Some dr) (Some dtc) src = Inr new"
  shows "distinct (map f_game_url new)"
    and "set (map f_game_url new) = f_game_url ` set prev \<union> game_url ` set src"
proof -
  let ?both = "prev @ fact_join (map (fct_row u e) src) dd dop dr dtc"
  have new: "new = dedup_latest choice ?both"
    using assms by (simp add: load_fact_table_def)
  show "distinct (map f_game_url new)"
    unfolding new by (rule distinct_dedup_latest)
  have "set (map f_game_url new) = f_game_url ` set ?both"
    unfolding new map_url_dedup_latest by (simp add: image_Un)
  also have "\<dots> = f_game_url ` set prev \<union> game_url ` set src"
    by (simp add: set_fact_join image_Un image_image)
  finally show "set (map f_game_url new) = f_game_url ` set prev \<union> game_url ` set src" .
qed

subsection \<open>The first run\<close>

lemma first_run_time_control_dim:
  "load_dim_time_control udfs0 None two_games
     = [\<lparr>dtc_time_control = Some ''600'', dtc_time_class = Some ''rapid''\<rparr>,
        \<lparr>dtc_time_control = Some ''600'', dtc_time_class = Some ''rapid''\<rparr>]"
  by (simp add: load_dim_time_control_def two_games_def time_control_row_def silver_game_def udfs0_def)

lemma first_run_date_dim:
  "map dd_game_date (load_dim_date None two_games) = [Some \<lparr>d_year = 2024, d_month = 1, d_day = 31\<rparr>]"
  by (simp add: load_dim_date_def two_games_def date_row_def silver_game_def sql_distinct_def)

lemma first_run_openings_dim:
  "map dop_pgn_eco_url (load_dim_openings udfs0 None two_games)
     = [Some ''https://www.chess.com/openings/Italian-Game'']"
  by (simp add: load_dim_openings_def two_games_def opening_row_def silver_game_def sql_distinct_def udfs0_def)

lemma first_run_results_dim:
  "map dr_result_code (load_dim_results None two_games)
     = map Some [''win'', ''checkmated'', ''agreed'', ''repetition'', ''timeout'', ''resigned'',
                 ''stalemate'', ''lose'', ''insufficient'', ''50move'', ''abandoned'', ''kingofthehill'',
                 ''threecheck'', ''timevsinsufficient'', ''bughousepartnerlose'']"
  by (simp add: load_dim_results_def dim_results_seed_def result_row_def)

lemma map_proj_left_join:
  "map (g \<circ> fst) (left_join (\<lambda>j d. c (g j) d) ys rs) = copies c rs (map g ys)"
proof -
  have "map (g \<circ> fst) (left_join (\<lambda>j d. c (g j) d) ys rs)
          = map g (map fst (left_join (\<lambda>j d. c (g j) d) ys rs))"
    by simp
  also have "\<dots> = copies c rs (map g ys)"
    unfolding map_fst_left_join copies_def
    by (induction ys) (simp_all add: map_replicate)
  finally show ?thesis .
qed

lemma fact_join_copies:
  "fact_join fct dd dop dr dtc =
     copies (\<lambda>f d. sql_eq (f_time_control f) (dtc_time_control d)) dtc
      (copies (\<lambda>f d. sql_eq (f_opponent_result f) (dr_result_code d)) dr
        (copies (\<lambda>f d. sql_eq (f_my_result f) (dr_result_code d)) dr
          (copies (\<lambda>f d. sql_eq (f_opening_url f) (dop_pgn_eco_url d)) dop
            (copies (\<lambda>f d. sql_eq (f_game_date f) (dd_game_date d)) dd fct))))"
proof -
  define j1 where "j1 = left_join (\<lambda>f d. sql_eq (f_game_date f) (dd_game_date d)) fct dd"
  define j2 where "j2 = left_join (\<lambda>j d. sql_eq (f_opening_url (fst j)) (dop_pgn_eco_url d)) j1 dop"
  define j3 where "j3 = left_join (\<lambda>j d. sql_eq (f_my_result ((fst \<circ> fst) j)) (dr_result_code d)) j2 dr"
  define j4 where "j4 = left_join (\<lambda>j d. sql_eq (f_opponent_result ((fst \<circ> fst \<circ> fst) j)) (dr_result_code d)) j3 dr"
  define j5 where "j5 = left_join (\<lambda>j d. sql_eq (f_time_control ((fst \<circ> fst \<circ> fst \<circ> fst) j)) (dtc_time_control d)) j4 dtc"
  have fj: "fact_join fct dd dop dr dtc = map (fst \<circ> fst \<circ> fst \<circ> fst \<circ> fst) j5"
    unfolding j5_def j4_def j3_def j2_def j1_def
    by (simp add: fact_join_def Let_def split_def comp_def)
  have 1: "map fst j1 = copies (\<lambda>f d. sql_eq (f_game_date f) (dd_game_date d)) dd fct"
    unfolding j1_def using map_proj_left_join [of id "\<lambda>f d. sql_eq (f_game_date f) (dd_game_date d)" fct dd]
    by simp
  have 2: "map (fst \<circ> fst) j2 = copies (\<lambda>f d. sql_eq (f_opening_url f) (dop_pgn_eco_url d)) dop (map fst j1)"
    unfolding j2_def by (rule map_proj_left_join)
  have 3: "map (fst \<circ> fst \<circ> fst) j3 = copies (\<lambda>f d. sql_eq (f_my_result f) (dr_result_code d)) dr (map (fst \<circ> fst) j2)"
    unfolding j3_def by (rule map_proj_left_join)
  have 4: "map (fst \<circ> fst \<circ> fst \<circ> fst) j4 = copies (\<lambda>f d. sql_eq (f_opponent_result f) (dr_result_code d)) dr (map (fst \<circ> fst \<circ> fst) j3)"
    unfolding j4_def by (rule map_proj_left_join)
  have 5: "map (fst \<circ> fst \<circ> fst \<circ> fst \<circ> fst) j5 = copies (\<lambda>f d. sql_eq (f_time_control f) (dtc_time_control d)) dtc (map (fst \<circ> fst \<circ> fst \<circ> fst) j4)"
    unfolding j5_def by (rule map_proj_left_join)
  show ?thesis
    unfolding fj 5 4 3 2 1 ..
qed


lemma length_filter_key: "length (filter (\<lambda>d. P (k d)) xs) = length (filter P (map k xs))"
  by (induction xs) auto

lemma copies_key:
  "copies (\<lambda>f d. c f (k d)) rs xs
     = concat (map (\<lambda>x. replicate (max 1 (length (filter (c x) (map k rs)))) x) xs)"
  by (simp add: copies_def length_filter_key)

lemma first_run_fact_join:
  "fact_join (map (fct_row udfs0 200) two_games)
      (load_dim_date None two_games) (load_dim_openings udfs0 None two_games)
      (load_dim_results None two_games) (load_dim_time_control udfs0 None two_games)
   = [fct_row udfs0 200 (silver_game ''https://www.chess.com/game/live/1'' ''600''),
      fct_row udfs0 200 (silver_game ''https://www.chess.com/game/live/1'' ''600''),
      fct_row udfs0 200 (silver_game ''https://www.chess.com/game/live/2'' ''600''),
      fct_row udfs0 200 (silver_game ''https://www.chess.com/game/live/2'' ''600'')]"
proof -
  have sel: "f_game_date (fct_row udfs0 200 (silver_game url ''600'')) = Some \<lparr>d_year = 2024, d_month = 1, d_day = 31\<rparr>"
    "f_opening_url (fct_row udfs0 200 (silver_game url ''600'')) = Some ''https://www.chess.com/openings/Italian-Game''"
    "f_my_result (fct_row udfs0 200 (silver_game url ''600'')) = Some ''win''"
    "f_opponent_result (fct_row udfs0 200 (silver_game url ''600'')) = Some ''resigned''"
    "f_time_control (fct_row udfs0 200 (silver_game url ''600'')) = Some ''600''" for url
    by (simp_all add: fct_row_def silver_game_def udfs0_def i_am_white_def)
  have tc: "map dtc_time_control (load_dim_time_control udfs0 None two_games) = [Some ''600'', Some ''600'']"
    by (simp add: first_run_time_control_dim)
  show ?thesis
    unfolding fact_join_copies
      copies_key [of "\<lambda>f. sql_eq (f_time_control f)" dtc_time_control]
      copies_key [of "\<lambda>f. sql_eq (f_opponent_result f)" dr_result_code]
      copies_key [of "\<lambda>f. sql_eq (f_my_result f)" dr_result_code]
      copies_key [of "\<lambda>f. sql_eq (f_opening_url f)" dop_pgn_eco_url]
      copies_key [of "\<lambda>f. sql_eq (f_game_date f)" dd_game_date]
      first_run_date_dim first_run_openings_dim first_run_results_dim tc
    by (simp add: two_games_def sel sql_eq_def)
qed

text \<open>
  C2 fails on the first run. Two games with distinct URLs and the same time control, no
  snapshot in the sink: \<open>load_dim_time_control\<close> writes its row twice (its first-run query
  has no \<open>DISTINCT\<close>), the left join then doubles each fact row, and \<open>load_fact_table\<close>
  publishes the joined batch without the deduplication of its other branch: four rows for
  two URLs.
\<close>

theorem first_run_publishes_duplicate_urls:
  "\<exists>t. load_fact_table udfs0 200 (\<lambda>ms. 0) None
          (Some (load_dim_date None two_games))
          (Some (load_dim_openings udfs0 None two_games))
          (Some (load_dim_results None two_games))
          (Some (load_dim_time_control udfs0 None two_games))
          two_games = Inr t
     \<and> map f_game_url t = [Some ''https://www.chess.com/game/live/1'', Some ''https://www.chess.com/game/live/1'',
                            Some ''https://www.chess.com/game/live/2'', Some ''https://www.chess.com/game/live/2'']
     \<and> \<not> distinct (map f_game_url t)"
  by (simp add: load_fact_table_def first_run_fact_join silver_game_def)

section \<open>Properties of the bronze-to-silver transform\<close>

subsection \<open>Timestamps\<close>

lemma days_from_civil_next_day:
  "days_from_civil (d\<lparr>d_day := d_day d + 1\<rparr>) = days_from_civil d + 1"
  by (simp add: days_from_civil_def Let_def)

text \<open>
  C8. The two timestamps are rebuilt independently: whenever the four \<open>STRPTIME\<close> calls
  succeed, the start timestamp is the time of the \<open>StartTime\<close> tag on the day of the
  \<open>Date\<close> tag, the end timestamp is the time of the \<open>EndTime\<close> tag on the day of the
  \<open>EndDate\<close> tag, and the duration that the fact load computes is their difference: the
  days between the two dates plus the difference of the two times of day. For a game
  that starts at 23:58:00 on a day D and ends at 00:03:00 on the day after D this is
  300 seconds.
\<close>

theorem cross_midnight_duration:
  assumes "strptime_date (replace_dot_slash (regexp_extract_tag ''Date'' (j_pgn g))) = Inr d1"
    and "strptime_time (regexp_extract_tag ''StartTime'' (j_pgn g)) = Inr st"
    and "strptime_time (regexp_extract_tag ''EndTime'' (j_pgn g)) = Inr et"
    and "strptime_date (replace_dot_slash (regexp_extract_tag ''EndDate'' (j_pgn g))) = Inr d2"
  shows "\<exists>r. transform_row u g = Inr r
           \<and> game_date r = Some d1 \<and> end_game_date r = Some d2
           \<and> start_time r = Some (days_from_civil d1 * 86400 + seconds_of_tod st)
           \<and> end_time r = Some (days_from_civil d2 * 86400 + seconds_of_tod et)
           \<and> f_start_time (fct_row u' exec_date r) = start_time r
           \<and> f_end_time (fct_row u' exec_date r) = end_time r
           \<and> f_game_duration_secs (fct_row u' exec_date r)
               = Some ((days_from_civil d2 - days_from_civil d1) * 86400
                        + (seconds_of_tod et - seconds_of_tod st))
           \<and> (st = \<lparr>t_hour = 23, t_minute = 58, t_second = 0\<rparr>
                \<and> et = \<lparr>t_hour = 0, t_minute = 3, t_second = 0\<rparr>
                \<and> days_from_civil d2 = days_from_civil d1 + 1
              \<longrightarrow> f_game_duration_secs (fct_row u' exec_date r) = Some 300)"
  using assms
  by (simp add: transform_row_def fct_row_def date_diff_seconds_def to_datetime_def
        seconds_of_tod_def algebra_simps)

theorem cross_midnight_duration_witness:
  "\<exists>r. transform_row udfs0 (raw_game_of pgn_midnight) = Inr r
       \<and> game_date r = Some \<lparr>d_year = 2024, d_month = 1, d_day = 31\<rparr>
       \<and> end_game_date r = Some \<lparr>d_year = 2024, d_month = 2, d_day = 1\<rparr>
       \<and> start_time r = Some 1706745480
       \<and> end_time r = Some 1706745780
       \<and> f_game_duration_secs (fct_row udfs0 200 r) = Some 300"
proof -
  let ?d1 = "\<lparr>d_year = 2024, d_month = 1, d_day = 31\<rparr>"
  let ?d2 = "\<lparr>d_year = 2024, d_month = 2, d_day = 1\<rparr>"
  let ?st = "\<lparr>t_hour = 23, t_minute = 58, t_second = 0\<rparr>"
  let ?et = "\<lparr>t_hour = 0, t_minute = 3, t_second = 0\<rparr>"
  have h1: "strptime_date (replace_dot_slash (regexp_extract_tag ''Date'' (j_pgn (raw_game_of pgn_midnight)))) = Inr ?d1"
    by code_simp
  have h2: "strptime_time (regexp_extract_tag ''StartTime'' (j_pgn (raw_game_of pgn_midnight))) = Inr ?st"
    by code_simp
  have h3: "strptime_time (regexp_extract_tag ''EndTime'' (j_pgn (raw_game_of pgn_midnight))) = Inr ?et"
    by code_simp
  have h4: "strptime_date (replace_dot_slash (regexp_extract_tag ''EndDate'' (j_pgn (raw_game_of pgn_midnight)))) = Inr ?d2"
    by code_simp
  have h5: "days_from_civil ?d2 = days_from_civil ?d1 + 1"
    by code_simp
  have t1: "days_from_civil ?d1 * 86400 + seconds_of_tod ?st = 1706745480"
    by code_simp
  have t2: "days_from_civil ?d2 * 86400 + seconds_of_tod ?et = 1706745780"
    by code_simp
  obtain r where r: "transform_row udfs0 (raw_game_of pgn_midnight) = Inr r"
      "game_date r = Some ?d1" "end_game_date r = Some ?d2"
      "start_time r = Some (days_from_civil ?d1 * 86400 + seconds_of_tod ?st)"
      "end_time r = Some (days_from_civil ?d2 * 86400 + seconds_of_tod ?et)"
      "?st = ?st \<and> ?et = ?et \<and> days_from_civil ?d2 = days_from_civil ?d1 + 1
         \<longrightarrow> f_game_duration_secs (fct_row udfs0 200 r) = Some 300"
    using cross_midnight_duration [OF h1 h2 h3 h4, of udfs0 udfs0 200] by blast
  from r(6) h5 have "f_game_duration_secs (fct_row udfs0 200 r) = Some 300"
    by blast
  with r(1-5) show ?thesis
    unfolding t1 t2 by blast
qed

subsection \<open>Missing tags\<close>

lemma regexp_first_absent: "\<not> sublist pre s \<Longrightarrow> regexp_first pre post s = None"
proof (induction s)
  case Nil
  then show ?case by (auto simp: match_at_def)
next
  case (Cons x xs)
  then have "\<not> prefix pre (x # xs)" "\<not> sublist pre xs"
    by (auto simp: sublist_Cons_right)
  with Cons.IH show ?case by (simp add: match_at_def)
qed

lemma regexp_extract_tag_absent:
  "\<not> sublist (tag_open name) pgn \<Longrightarrow> regexp_extract_tag name pgn = []"
  by (simp add: regexp_extract_tag_def regexp_extract_def regexp_first_absent)

lemma strptime_empty:
  "strptime_date (replace_dot_slash []) = Inl InvalidInputError"
  "strptime_time [] = Inl InvalidInputError"
  by (simp_all add: strptime_date_def strptime_time_def replace_dot_slash_def parse3_def parse_num_def)

lemma strptime_error:
  "strptime_date s = Inl e \<Longrightarrow> e = InvalidInputError"
  "strptime_time s = Inl e \<Longrightarrow> e = InvalidInputError"
  by (auto simp: strptime_date_def strptime_time_def Let_def split: option.splits if_splits)

lemma transform_row_Inl:
  assumes "transform_row u g = Inl e"
  shows "strptime_date (replace_dot_slash (regexp_extract_tag ''Date'' (j_pgn g))) = Inl e
       \<or> strptime_time (regexp_extract_tag ''StartTime'' (j_pgn g)) = Inl e
       \<or> strptime_time (regexp_extract_tag ''EndTime'' (j_pgn g)) = Inl e
       \<or> strptime_date (replace_dot_slash (regexp_extract_tag ''EndDate'' (j_pgn g))) = Inl e"
  using assms unfolding transform_row_def by (simp split: sum.split_asm)

lemma transform_row_error: "transform_row u g = Inl e \<Longrightarrow> e = InvalidInputError"
  using transform_row_Inl strptime_error by blast

lemma transform_row_Inr:
  assumes "transform_row u g = Inr r"
  shows "\<exists>gd st et egd.
           strptime_date (replace_dot_slash (regexp_extract_tag ''Date'' (j_pgn g))) = Inr gd
         \<and> strptime_time (regexp_extract_tag ''StartTime'' (j_pgn g)) = Inr st
         \<and> strptime_time (regexp_extract_tag ''EndTime'' (j_pgn g)) = Inr et
         \<and> strptime_date (replace_dot_slash (regexp_extract_tag ''EndDate'' (j_pgn g))) = Inr egd"
  using assms unfolding transform_row_def by (simp split: sum.split_asm)

lemma transform_row_text_fields:
  assumes "transform_row u g = Inr r"
  shows "pgn_event r = Some (regexp_extract_tag ''Event'' (j_pgn g))"
    and "pgn_site r = Some (regexp_extract_tag ''Site'' (j_pgn g))"
    and "pgn_white_user r = Some (regexp_extract_tag ''White'' (j_pgn g))"
    and "pgn_black_user r = Some (regexp_extract_tag ''Black'' (j_pgn g))"
    and "pgn_result r = Some (regexp_extract_tag ''Result'' (j_pgn g))"
    and "pgn_current_position r = Some (regexp_extract_tag ''CurrentPosition'' (j_pgn g))"
    and "pgn_timezone r = Some (regexp_extract_tag ''Timezone'' (j_pgn g))"
    and "pgn_eco r = Some (regexp_extract_tag ''ECO'' (j_pgn g))"
    and "pgn_eco_url r = Some (regexp_extract_tag ''ECOUrl'' (j_pgn g))"
proof -
  obtain gd st et egd where
    "strptime_date (replace_dot_slash (regexp_extract_tag ''Date'' (j_pgn g))) = Inr gd"
    "strptime_time (regexp_extract_tag ''StartTime'' (j_pgn g)) = Inr st"
    "strptime_time (regexp_extract_tag ''EndTime'' (j_pgn g)) = Inr et"
    "strptime_date (replace_dot_slash (regexp_extract_tag ''EndDate'' (j_pgn g))) = Inr egd"
    using transform_row_Inr [OF assms] by blast
  then have "transform_row u g = Inr
     \<lparr> game_url = j_url g,
                time_control = j_time_control g,
                rated = j_rated g,
                time_class = j_time_class g,
                rules = j_rules g,
                white_rating = j_white_rating g,
                white_result = j_white_result g,
                black_rating = j_black_rating g,
                black_result = j_black_result g,
                pgn_event = Some (regexp_extract_tag ''Event'' (j_pgn g)),
                pgn_site = Some (regexp_extract_tag ''Site'' (j_pgn g)),
                game_date = Some gd,
                pgn_white_user = Some (regexp_extract_tag ''White'' (j_pgn g)),
                pgn_black_user = Some (regexp_extract_tag ''Black'' (j_pgn g)),
                pgn_result = Some (regexp_extract_tag ''Result'' (j_pgn g)),
                pgn_current_position = Some (regexp_extract_tag ''CurrentPosition'' (j_pgn g)),
                pgn_timezone = Some (regexp_extract_tag ''Timezone'' (j_pgn g)),
                pgn_eco = Some (regexp_extract_tag ''ECO'' (j_pgn g)),
                pgn_eco_url = Some (regexp_extract_tag ''ECOUrl'' (j_pgn g)),
                start_time = Some (to_datetime gd st),
                end_time = Some (to_datetime egd et),
                end_game_date = Some egd,
                pgn_raw = Some (join_sp (move_tokens (j_pgn g))),
                pgn_trans = udf_add_move_numbers u (move_tokens (j_pgn g)) \<rparr>"
    by (simp add: transform_row_def)
  with assms have r: "r =
     \<lparr> game_url = j_url g,
                time_control = j_time_control g,
                rated = j_rated g,
                time_class = j_time_class g,
                rules = j_rules g,
                white_rating = j_white_rating g,
                white_result = j_white_result g,
                black_rating = j_black_rating g,
                black_result = j_black_result g,
                pgn_event = Some (regexp_extract_tag ''Event'' (j_pgn g)),
                pgn_site = Some (regexp_extract_tag ''Site'' (j_pgn g)),
                game_date = Some gd,
                pgn_white_user = Some (regexp_extract_tag ''White'' (j_pgn g)),
                pgn_black_user = Some (regexp_extract_tag ''Black'' (j_pgn g)),
                pgn_result = Some (regexp_extract_tag ''Result'' (j_pgn g)),
                pgn_current_position = Some (regexp_extract_tag ''CurrentPosition'' (j_pgn g)),
                pgn_timezone = Some (regexp_extract_tag ''Timezone'' (j_pgn g)),
                pgn_eco = Some (regexp_extract_tag ''ECO'' (j_pgn g)),
                pgn_eco_url = Some (regexp_extract_tag ''ECOUrl'' (j_pgn g)),
                start_time = Some (to_datetime gd st),
                end_time = Some (to_datetime egd et),
                end_game_date = Some egd,
                pgn_raw = Some (join_sp (move_tokens (j_pgn g))),
                pgn_trans = udf_add_move_numbers u (move_tokens (j_pgn g)) \<rparr>"
    by simp
  show "pgn_event r = Some (regexp_extract_tag ''Event'' (j_pgn g))"
    and "pgn_site r = Some (regexp_extract_tag ''Site'' (j_pgn g))"
    and "pgn_white_user r = Some (regexp_extract_tag ''White'' (j_pgn g))"
    and "pgn_black_user r = Some (regexp_extract_tag ''Black'' (j_pgn g))"
    and "pgn_result r = Some (regexp_extract_tag ''Result'' (j_pgn g))"
    and "pgn_current_position r = Some (regexp_extract_tag ''CurrentPosition'' (j_pgn g))"
    and "pgn_timezone r = Some (regexp_extract_tag ''Timezone'' (j_pgn g))"
    and "pgn_eco r = Some (regexp_extract_tag ''ECO'' (j_pgn g))"
    and "pgn_eco_url r = Some (regexp_extract_tag ''ECOUrl'' (j_pgn g))"
    unfolding r by simp_all
qed


lemma transform_row_missing_time_tag:
  assumes "name \<in> {''Date'', ''StartTime'', ''EndTime'', ''EndDate''}"
    and "\<not> sublist (tag_open name) (j_pgn g)"
  shows "transform_row u g = Inl InvalidInputError"
proof (cases "transform_row u g")
  case (Inl e)
  then show ?thesis using transform_row_error by blast
next
  case (Inr r)
  have e: "regexp_extract_tag name (j_pgn g) = []"
    using assms(2) by (rule regexp_extract_tag_absent)
  obtain gd st et egd where ok:
    "strptime_date (replace_dot_slash (regexp_extract_tag ''Date'' (j_pgn g))) = Inr gd"
    "strptime_time (regexp_extract_tag ''StartTime'' (j_pgn g)) = Inr st"
    "strptime_time (regexp_extract_tag ''EndTime'' (j_pgn g)) = Inr et"
    "strptime_date (replace_dot_slash (regexp_extract_tag ''EndDate'' (j_pgn g))) = Inr egd"
    using transform_row_Inr [OF Inr] by blast
  from assms(1) consider "name = ''Date''" | "name = ''StartTime''" | "name = ''EndTime''" | "name = ''EndDate''"
    by blast
  then have False
  proof cases
    case 1
    with e ok(1) show False by (simp add: strptime_empty)
  next
    case 2
    with e ok(2) show False by (simp add: strptime_empty)
  next
    case 3
    with e ok(3) show False by (simp add: strptime_empty)
  next
    case 4
    with e ok(4) show False by (simp add: strptime_empty)
  qed
  then show ?thesis ..
qed

lemma collect_Inl_mem: "collect rs = Inl e \<Longrightarrow> Inl e \<in> set rs"
  by (induction rs rule: collect.induct) (auto split: sum.splits)

lemma collect_fails: "Inl e \<in> set rs \<Longrightarrow> \<exists>e'. collect rs = Inl e'"
  by (induction rs rule: collect.induct) (auto split: sum.splits)

lemma transform_batch_error:
  assumes "g \<in> set games" "transform_row u g = Inl InvalidInputError"
  shows "transform_json_to_fact_table u games = Inl InvalidInputError"
proof -
  have "Inl InvalidInputError \<in> transform_row u ` set games"
    using assms by (metis imageI)
  then have "Inl InvalidInputError \<in> set (map (transform_row u) games)"
    by simp
  then obtain e' where e': "collect (map (transform_row u) games) = Inl e'"
    using collect_fails by blast
  then have "Inl e' \<in> set (map (transform_row u) games)"
    by (rule collect_Inl_mem)
  then obtain g' where "transform_row u g' = Inl e'"
    by auto
  then have "e' = InvalidInputError"
    by (rule transform_row_error)
  with e' show ?thesis
    by (simp add: transform_json_to_fact_table_def)
qed


lemma collect_all_Inr:
  "\<forall>x \<in> set rs. \<exists>v. x = Inr v \<Longrightarrow> \<exists>vs. collect rs = Inr vs \<and> length vs = length rs"
proof (induction rs rule: collect.induct)
  case 1
  then show ?case by simp
next
  case (2 err rs)
  then show ?case by simp
next
  case (3 v rs)
  then obtain vs where "collect rs = Inr vs" "length vs = length rs" by auto
  then show ?case by simp
qed

lemma transform_batch_ok:
  assumes "\<forall>g \<in> set games. \<exists>r. transform_row u g = Inr r"
  shows "\<exists>rows. transform_json_to_fact_table u games = Inr rows \<and> length rows = length games"
proof -
  have "\<forall>x \<in> set (map (transform_row u) games). \<exists>v. x = Inr v"
    using assms by auto
  from collect_all_Inr [OF this] show ?thesis
    by (simp add: transform_json_to_fact_table_def)
qed

lemma transform_row_returns:
  assumes "strptime_date (replace_dot_slash (regexp_extract_tag ''Date'' (j_pgn g))) = Inr gd"
    and "strptime_time (regexp_extract_tag ''StartTime'' (j_pgn g)) = Inr st"
    and "strptime_time (regexp_extract_tag ''EndTime'' (j_pgn g)) = Inr et"
    and "strptime_date (replace_dot_slash (regexp_extract_tag ''EndDate'' (j_pgn g))) = Inr egd"
  shows "\<exists>r. transform_row u g = Inr r"
  using assms by (simp add: transform_row_def)

text \<open>
  C9, as the spec states it, fails for the tags read through \<open>STRPTIME\<close>: on a blob with no
  \<open>Date\<close> tag the extraction gives the empty string, \<open>STRPTIME\<close> raises on it, and the
  transform of the batch ends in that error instead of a row with a null date.
\<close>

theorem missing_date_tag_raises_counterexample:
  "\<not> sublist (tag_open ''Date'') pgn_no_date
   \<and> transform_json_to_fact_table udfs0 [raw_game_of pgn_no_date] = Inl InvalidInputError"
  by code_simp

text \<open>
  C9, amended. Extraction of a tag that does not occur in the blob gives the empty string
  and does not raise. A missing text tag never makes the transform fail: whenever the
  four \<open>STRPTIME\<close> calls succeed the transform returns a row, in which \<open>pgn_event\<close>,
  \<open>pgn_site\<close>, \<open>pgn_white_user\<close>, \<open>pgn_black_user\<close>, \<open>pgn_result\<close>,
  \<open>pgn_current_position\<close>, \<open>pgn_timezone\<close>, \<open>pgn_eco\<close> and \<open>pgn_eco_url\<close> hold the empty
  string for a tag that is missing, and a batch whose games all return a row gives one
  row per game. When one of \<open>Date\<close>, \<open>StartTime\<close>, \<open>EndTime\<close>, \<open>EndDate\<close> is missing from
  the blob of a game, \<open>STRPTIME\<close> raises on the empty string and the transform of every
  batch with that game fails.
\<close>

theorem missing_tag_behaviour:
  "(\<not> sublist (tag_open name) pgn \<longrightarrow> regexp_extract_tag name pgn = [])
   \<and> (strptime_date (replace_dot_slash (regexp_extract_tag ''Date'' (j_pgn g))) = Inr gd
        \<and> strptime_time (regexp_extract_tag ''StartTime'' (j_pgn g)) = Inr st
        \<and> strptime_time (regexp_extract_tag ''EndTime'' (j_pgn g)) = Inr et
        \<and> strptime_date (replace_dot_slash (regexp_extract_tag ''EndDate'' (j_pgn g))) = Inr egd
      \<longrightarrow> (\<exists>r. transform_row u g = Inr r
            \<and> (\<not> sublist (tag_open ''Event'') (j_pgn g) \<longrightarrow> pgn_event r = Some [])
            \<and> (\<not> sublist (tag_open ''Site'') (j_pgn g) \<longrightarrow> pgn_site r = Some [])
            \<and> (\<not> sublist (tag_open ''White'') (j_pgn g) \<longrightarrow> pgn_white_user r = Some [])
            \<and> (\<not> sublist (tag_open ''Black'') (j_pgn g) \<longrightarrow> pgn_black_user r = Some [])
            \<and> (\<not> sublist (tag_open ''Result'') (j_pgn g) \<longrightarrow> pgn_result r = Some [])
            \<and> (\<not> sublist (tag_open ''CurrentPosition'') (j_pgn g) \<longrightarrow> pgn_current_position r = Some [])
            \<and> (\<not> sublist (tag_open ''Timezone'') (j_pgn g) \<longrightarrow> pgn_timezone r = Some [])
            \<and> (\<not> sublist (tag_open ''ECO'') (j_pgn g) \<longrightarrow> pgn_eco r = Some [])
            \<and> (\<not> sublist (tag_open ''ECOUrl'') (j_pgn g) \<longrightarrow> pgn_eco_url r = Some [])))
   \<and> ((\<forall>x \<in> set games. \<exists>r. transform_row u x = Inr r)
      \<longrightarrow> (\<exists>rows. transform_json_to_fact_table u games = Inr rows \<and> length rows = length games))
   \<and> (tname \<in> {''Date'', ''StartTime'', ''EndTime'', ''EndDate''}
        \<and> \<not> sublist (tag_open tname) (j_pgn g') \<and> g' \<in> set games
      \<longrightarrow> transform_row u g' = Inl InvalidInputError
          \<and> transform_json_to_fact_table u games = Inl InvalidInputError)"
proof (intro conjI impI)
  show "regexp_extract_tag name pgn = []" if "\<not> sublist (tag_open name) pgn"
    using that by (rule regexp_extract_tag_absent)
next
  assume p: "strptime_date (replace_dot_slash (regexp_extract_tag ''Date'' (j_pgn g))) = Inr gd
        \<and> strptime_time (regexp_extract_tag ''StartTime'' (j_pgn g)) = Inr st
        \<and> strptime_time (regexp_extract_tag ''EndTime'' (j_pgn g)) = Inr et
        \<and> strptime_date (replace_dot_slash (regexp_extract_tag ''EndDate'' (j_pgn g))) = Inr egd"
  then obtain r where r: "transform_row u g = Inr r"
    using transform_row_returns [of g gd st et egd u] by blast
  note f = transform_row_text_fields [OF r]
  have "pgn_event r = Some []" if "\<not> sublist (tag_open ''Event'') (j_pgn g)"
    using that f(1) by (simp add: regexp_extract_tag_absent)
  moreover have "pgn_site r = Some []" if "\<not> sublist (tag_open ''Site'') (j_pgn g)"
    using that f(2) by (simp add: regexp_extract_tag_absent)
  moreover have "pgn_white_user r = Some []" if "\<not> sublist (tag_open ''White'') (j_pgn g)"
    using that f(3) by (simp add: regexp_extract_tag_absent)
  moreover have "pgn_black_user r = Some []" if "\<not> sublist (tag_open ''Black'') (j_pgn g)"
    using that f(4) by (simp add: regexp_extract_tag_absent)
  moreover have "pgn_result r = Some []" if "\<not> sublist (tag_open ''Result'') (j_pgn g)"
    using that f(5) by (simp add: regexp_extract_tag_absent)
  moreover have "pgn_current_position r = Some []" if "\<not> sublist (tag_open ''CurrentPosition'') (j_pgn g)"
    using that f(6) by (simp add: regexp_extract_tag_absent)
  moreover have "pgn_timezone r = Some []" if "\<not> sublist (tag_open ''Timezone'') (j_pgn g)"
    using that f(7) by (simp add: regexp_extract_tag_absent)
  moreover have "pgn_eco r = Some []" if "\<not> sublist (tag_open ''ECO'') (j_pgn g)"
    using that f(8) by (simp add: regexp_extract_tag_absent)
  moreover have "pgn_eco_url r = Some []" if "\<not> sublist (tag_open ''ECOUrl'') (j_pgn g)"
    using that f(9) by (simp add: regexp_extract_tag_absent)
  ultimately show "\<exists>r. transform_row u g = Inr r
            \<and> (\<not> sublist (tag_open ''Event'') (j_pgn g) \<longrightarrow> pgn_event r = Some [])
            \<and> (\<not> sublist (tag_open ''Site'') (j_pgn g) \<longrightarrow> pgn_site r = Some [])
            \<and> (\<not> sublist (tag_open ''White'') (j_pgn g) \<longrightarrow> pgn_white_user r = Some [])
            \<and> (\<not> sublist (tag_open ''Black'') (j_pgn g) \<longrightarrow> pgn_black_user r = Some [])
            \<and> (\<not> sublist (tag_open ''Result'') (j_pgn g) \<longrightarrow> pgn_result r = Some [])
            \<and> (\<not> sublist (tag_open ''CurrentPosition'') (j_pgn g) \<longrightarrow> pgn_current_position r = Some [])
            \<and> (\<not> sublist (tag_open ''Timezone'') (j_pgn g) \<longrightarrow> pgn_timezone r = Some [])
            \<and> (\<not> sublist (tag_open ''ECO'') (j_pgn g) \<longrightarrow> pgn_eco r = Some [])
            \<and> (\<not> sublist (tag_open ''ECOUrl'') (j_pgn g) \<longrightarrow> pgn_eco_url r = Some [])"
    using r by blast
next
  show "\<exists>rows. transform_json_to_fact_table u games = Inr rows \<and> length rows = length games"
    if "\<forall>x \<in> set games. \<exists>r. transform_row u x = Inr r"
    using that by (rule transform_batch_ok)
next
  assume "tname \<in> {''Date'', ''StartTime'', ''EndTime'', ''EndDate''}
        \<and> \<not> sublist (tag_open tname) (j_pgn g') \<and> g' \<in> set games"
  then have a: "tname \<in> {''Date'', ''StartTime'', ''EndTime'', ''EndDate''}"
    "\<not> sublist (tag_open tname) (j_pgn g')" "g' \<in> set games" by blast+
  show e: "transform_row u g' = Inl InvalidInputError"
    by (rule transform_row_missing_time_tag [OF a(1,2)])
  show "transform_json_to_fact_table u games = Inl InvalidInputError"
    by (rule transform_batch_error [OF a(3) e])
qed

theorem missing_tag_behaviour_witness:
  "regexp_extract_tag ''Timezone'' pgn_midnight = []
   \<and> (\<exists>r. transform_row udfs0 (raw_game_of pgn_midnight) = Inr r \<and> pgn_timezone r = Some []
         \<and> pgn_current_position r = Some [])
   \<and> (\<exists>rows. transform_json_to_fact_table udfs0 [raw_game_of pgn_midnight] = Inr rows
         \<and> length rows = 1)
   \<and> transform_json_to_fact_table udfs0 [raw_game_of pgn_midnight, raw_game_of pgn_no_date]
       = Inl InvalidInputError"
proof -
  let ?g = "raw_game_of pgn_midnight"
  have j: "j_pgn (raw_game_of p) = p" for p
    by (simp add: raw_game_of_def)
  have h1: "strptime_date (replace_dot_slash (regexp_extract_tag ''Date'' (j_pgn ?g)))
              = Inr \<lparr>d_year = 2024, d_month = 1, d_day = 31\<rparr>"
    by code_simp
  have h2: "strptime_time (regexp_extract_tag ''StartTime'' (j_pgn ?g))
              = Inr \<lparr>t_hour = 23, t_minute = 58, t_second = 0\<rparr>"
    by code_simp
  have h3: "strptime_time (regexp_extract_tag ''EndTime'' (j_pgn ?g))
              = Inr \<lparr>t_hour = 0, t_minute = 3, t_second = 0\<rparr>"
    by code_simp
  have h4: "strptime_date (replace_dot_slash (regexp_extract_tag ''EndDate'' (j_pgn ?g)))
              = Inr \<lparr>d_year = 2024, d_month = 2, d_day = 1\<rparr>"
    by code_simp
  have tz: "\<not> sublist (tag_open ''Timezone'') (j_pgn ?g)"
    by code_simp
  have cp: "\<not> sublist (tag_open ''CurrentPosition'') (j_pgn ?g)"
    by code_simp
  have nd: "\<not> sublist (tag_open ''Date'') (j_pgn (raw_game_of pgn_no_date))"
    by code_simp
  note t1 = missing_tag_behaviour
      [of "''Timezone''" pgn_midnight ?g "\<lparr>d_year = 2024, d_month = 1, d_day = 31\<rparr>"
          "\<lparr>t_hour = 23, t_minute = 58, t_second = 0\<rparr>" "\<lparr>t_hour = 0, t_minute = 3, t_second = 0\<rparr>"
          "\<lparr>d_year = 2024, d_month = 2, d_day = 1\<rparr>" udfs0 "[?g]" "''Date''"
          "raw_game_of pgn_no_date"]
  note t2 = missing_tag_behaviour
      [of "''Timezone''" pgn_midnight ?g "\<lparr>d_year = 2024, d_month = 1, d_day = 31\<rparr>"
          "\<lparr>t_hour = 23, t_minute = 58, t_second = 0\<rparr>" "\<lparr>t_hour = 0, t_minute = 3, t_second = 0\<rparr>"
          "\<lparr>d_year = 2024, d_month = 2, d_day = 1\<rparr>" udfs0 "[?g, raw_game_of pgn_no_date]" "''Date''"
          "raw_game_of pgn_no_date"]
  have a: "regexp_extract_tag ''Timezone'' pgn_midnight = []"
    using t1 tz by (simp add: j)
  have b: "\<exists>r. transform_row udfs0 ?g = Inr r \<and> pgn_timezone r = Some [] \<and> pgn_current_position r = Some []"
    using t1 h1 h2 h3 h4 tz cp by blast
  then have "\<forall>x \<in> set [?g]. \<exists>r. transform_row udfs0 x = Inr r"
    by auto
  with t1 have c: "\<exists>rows. transform_json_to_fact_table udfs0 [?g] = Inr rows \<and> length rows = 1"
    by auto
  have d: "transform_json_to_fact_table udfs0 [?g, raw_game_of pgn_no_date] = Inl InvalidInputError"
    using t2 nd by simp
  from a b c d show ?thesis by blast
qed

section \<open>Properties of the dimension loads\<close>

lemma sql_not_in_plain:
  "None \<notin> set ys \<Longrightarrow> x \<noteq> None \<Longrightarrow> sql_not_in x ys \<longleftrightarrow> x \<notin> set ys"
  by (auto simp: sql_not_in_def)

lemma set_sql_union [simp]: "set (sql_union xs ys) = set xs \<union> set ys"
  by (simp add: sql_union_def)

lemma distinct_sql_union [simp]: "distinct (sql_union xs ys)"
  by (simp add: sql_union_def)

lemma set_sql_distinct [simp]: "set (sql_distinct xs) = set xs"
  by (simp add: sql_distinct_def)

lemma distinct_sql_distinct [simp]: "distinct (sql_distinct xs)"
  by (simp add: sql_distinct_def)

lemma remdups_append_absorb: "set xs \<subseteq> set ys \<Longrightarrow> remdups (xs @ ys) = remdups ys"
  by (induction xs) auto

lemma sql_union_absorb:
  assumes "distinct S" "set xs \<subseteq> set S"
  shows "sql_union xs S = S"
  using assms by (simp add: sql_union_def remdups_append_absorb distinct_remdups_id)

text \<open>The shape of every merge query, and the fact that makes a second run add nothing.\<close>

lemma merge_again:
  assumes "distinct S"
    and "\<And>r. r \<in> set src \<Longrightarrow> sql_not_in (key r) (map k S) \<Longrightarrow> f r \<in> set S"
  shows "sql_union (sql_distinct (map f (filter (\<lambda>r. sql_not_in (key r) (map k S)) src))) S = S"
proof (rule sql_union_absorb [OF assms(1)])
  show "set (sql_distinct (map f (filter (\<lambda>r. sql_not_in (key r) (map k S)) src))) \<subseteq> set S"
    using assms(2) by auto
qed

lemma merged_contains_candidates:
  assumes S_def: "S = sql_union (sql_distinct (map f (filter (\<lambda>r. sql_not_in (key r) (map k dest)) src))) dest"
    and r: "r \<in> set src" and n: "sql_not_in (key r) (map k S)"
  shows "f r \<in> set S"
proof -
  have sub: "set dest \<subseteq> set S" by (simp add: S_def)
  have "sql_not_in (key r) (map k dest)"
  proof (cases "dest = []")
    case True
    then show ?thesis by (simp add: sql_not_in_def)
  next
    case False
    then have "S \<noteq> []" using sub by auto
    with n have "key r \<noteq> None" "None \<notin> set (map k S)" "key r \<notin> set (map k S)"
      by (auto simp: sql_not_in_def)
    with sub have "None \<notin> set (map k dest)" "key r \<notin> set (map k dest)"
      by auto
    with \<open>key r \<noteq> None\<close> show ?thesis by (simp add: sql_not_in_def)
  qed
  with r show ?thesis by (simp add: S_def)
qed

lemma opening_row_key [simp]: "dop_pgn_eco_url (opening_row u r) = pgn_eco_url r"
  by (simp add: opening_row_def)

lemma date_row_key [simp]: "dd_game_date (date_row r) = game_date r"
  by (simp add: date_row_def)

lemma load_dim_openings_distinct: "distinct (load_dim_openings u existing src)"
  by (cases existing) (simp_all add: load_dim_openings_def)

lemma load_dim_date_distinct: "distinct (load_dim_date existing src)"
  by (cases existing) (simp_all add: load_dim_date_def)

lemma load_dim_openings_again:
  "load_dim_openings u (Some (load_dim_openings u existing src)) src = load_dim_openings u existing src"
proof -
  let ?S = "load_dim_openings u existing src"
  have "opening_row u r \<in> set ?S" if "r \<in> set src" "sql_not_in (pgn_eco_url r) (map dop_pgn_eco_url ?S)" for r
  proof (cases existing)
    case None
    with that(1) show ?thesis by (simp add: load_dim_openings_def)
  next
    case (Some dest)
    show ?thesis
      by (rule merged_contains_candidates [where dest = dest and k = dop_pgn_eco_url and key = pgn_eco_url, OF _ that])
         (simp add: Some load_dim_openings_def)
  qed
  then have "sql_union (sql_distinct (map (opening_row u)
               (filter (\<lambda>r. sql_not_in (pgn_eco_url r) (map dop_pgn_eco_url ?S)) src))) ?S = ?S"
    by (intro merge_again load_dim_openings_distinct)
  then show ?thesis
    by (simp add: load_dim_openings_def [of u "Some ?S"])
qed

lemma load_dim_date_again:
  "load_dim_date (Some (load_dim_date existing src)) src = load_dim_date existing src"
proof -
  let ?S = "load_dim_date existing src"
  have "date_row r \<in> set ?S" if "r \<in> set src" "sql_not_in (game_date r) (map dd_game_date ?S)" for r
  proof (cases existing)
    case None
    with that(1) show ?thesis by (simp add: load_dim_date_def)
  next
    case (Some dest)
    show ?thesis
      by (rule merged_contains_candidates [where dest = dest and k = dd_game_date and key = game_date, OF _ that])
         (simp add: Some load_dim_date_def)
  qed
  then have "sql_union (sql_distinct (map date_row
               (filter (\<lambda>r. sql_not_in (game_date r) (map dd_game_date ?S)) src))) ?S = ?S"
    by (intro merge_again load_dim_date_distinct)
  then show ?thesis
    by (simp add: load_dim_date_def [of "Some ?S"])
qed

lemma load_dim_time_control_again:
  "load_dim_time_control u (Some (load_dim_time_control u (Some dest) src)) src
     = load_dim_time_control u (Some dest) src"
proof -
  let ?S = "load_dim_time_control u (Some dest) src"
  have d: "distinct ?S" by (simp add: load_dim_time_control_def)
  have "time_control_row u r \<in> set ?S"
    if "r \<in> set src" "sql_not_in (time_control r) (map dtc_time_control ?S)" for r
    by (rule merged_contains_candidates [where dest = dest and k = dtc_time_control and key = time_control, OF _ that])
       (simp add: load_dim_time_control_def)
  then have "sql_union (sql_distinct (map (time_control_row u)
               (filter (\<lambda>r. sql_not_in (time_control r) (map dtc_time_control ?S)) src))) ?S = ?S"
    by (intro merge_again d)
  then show ?thesis
    by (simp add: load_dim_time_control_def [of u "Some ?S"])
qed

lemma load_dim_results_again:
  "load_dim_results (Some (load_dim_results existing src)) src = load_dim_results existing src"
  by (simp add: load_dim_results_def)

text \<open>A second run of a load on the snapshot the first run left, with the same batch: the
  openings, date and results loads give that snapshot again from any starting state of the
  sink, the time-control load from any snapshot.\<close>

lemma dimension_loads_again:
  "load_dim_openings u (Some (load_dim_openings u ex_openings src)) src = load_dim_openings u ex_openings src
   \<and> load_dim_date (Some (load_dim_date ex_date src)) src = load_dim_date ex_date src
   \<and> load_dim_results (Some (load_dim_results ex_results src)) src = load_dim_results ex_results src
   \<and> load_dim_time_control u (Some (load_dim_time_control u (Some dest) src)) src
       = load_dim_time_control u (Some dest) src"
  by (simp only: load_dim_openings_again load_dim_date_again load_dim_results_again
        load_dim_time_control_again simp_thms)

text \<open>
  C5 fails for the time-control load on a first run. With no snapshot in the sink and two
  games of one time control, the load writes the row of that time control twice (its
  first-run query has no \<open>DISTINCT\<close>); run again with the same batch on that snapshot,
  the load writes the row once. The second snapshot differs from the first, and the first
  holds a natural key twice. This is so for every formatter.
\<close>

theorem first_run_time_control_not_idempotent:
  "load_dim_time_control u None two_games
     = [time_control_row u (silver_game ''https://www.chess.com/game/live/1'' ''600''),
        time_control_row u (silver_game ''https://www.chess.com/game/live/1'' ''600'')]
   \<and> load_dim_time_control u (Some (load_dim_time_control u None two_games)) two_games
     = [time_control_row u (silver_game ''https://www.chess.com/game/live/1'' ''600'')]
   \<and> load_dim_time_control u (Some (load_dim_time_control u None two_games)) two_games
     \<noteq> load_dim_time_control u None two_games
   \<and> \<not> distinct (map dtc_time_control (load_dim_time_control u None two_games))"
proof -
  let ?R = "time_control_row u (silver_game ''https://www.chess.com/game/live/1'' ''600'')"
  have same: "time_control_row u (silver_game ''https://www.chess.com/game/live/2'' ''600'') = ?R"
    by (simp add: time_control_row_def silver_game_def)
  have first: "load_dim_time_control u None two_games = [?R, ?R]"
    by (simp add: load_dim_time_control_def two_games_def same)
  have second: "load_dim_time_control u (Some [?R, ?R]) two_games = [?R]"
    by (simp add: load_dim_time_control_def two_games_def same sql_union_def sql_distinct_def)
  show ?thesis
    unfolding first second by simp
qed

lemma image_filter_not_in:
  assumes "\<And>r. k (f r) = key r"
  shows "f ` set (filter (\<lambda>r. sql_not_in (key r) ks) src) = {c \<in> f ` set src. sql_not_in (k c) ks}"
  using assms by auto

lemma sql_not_in_no_nulls:
  assumes "None \<notin> k ` set dest" "None \<notin> key ` set src" "\<And>r. k (f r) = key r"
  shows "{c \<in> f ` set src. sql_not_in (k c) (map k dest)} = {c \<in> f ` set src. k c \<notin> k ` set dest}"
proof -
  have "sql_not_in (key r) (map k dest) \<longleftrightarrow> key r \<notin> k ` set dest" if "r \<in> set src" for r
  proof -
    have "key r \<noteq> None" using assms(2) that by (metis imageI)
    moreover have "None \<notin> set (map k dest)" using assms(1) by simp
    ultimately show ?thesis using sql_not_in_plain [of "map k dest" "key r"] by simp
  qed
  then show ?thesis using assms(3) by auto
qed

text \<open>The time-control load tests the raw code of a batch row against the formatted labels
  of the snapshot.\<close>

lemma load_dim_time_control_rows:
  "set (load_dim_time_control u (Some dest) src)
     = set dest \<union> time_control_row u `
         {r \<in> set src. sql_not_in (time_control r) (map dtc_time_control dest)}"
  by (auto simp: load_dim_time_control_def)

text \<open>
  C3, as the spec states it, fails for the results dimension: a batch with a result code
  that the snapshot does not hold leaves the snapshot as it was.
\<close>

theorem results_dimension_not_merged_counterexample:
  "black_result silver_sicilian = Some ''forfeit''
   \<and> Some ''forfeit'' \<notin> set (map dr_result_code dim_results_seed)
   \<and> load_dim_results (Some dim_results_seed) [silver_sicilian] = dim_results_seed"
  by (simp add: silver_sicilian_def silver_game_def dim_results_seed_def result_row_def load_dim_results_def)

text \<open>
  C3, amended. For the openings and the date dimension the rows of the new snapshot are
  the rows of the existing one together with exactly those candidate rows whose natural
  key passes the query's \<open>NOT IN\<close> test against the keys of the existing rows, each row
  once; with no NULL key in the snapshot or in the batch these are exactly the candidate
  rows whose natural key no existing row has. The results dimension takes no candidates
  from the batch: an existing snapshot stays as it is, and a missing one is written as the
  fixed table of fifteen codes.
\<close>

theorem dimension_merge_rule:
  "set (load_dim_openings u (Some dest_o) src)
     = set dest_o \<union> {c \<in> opening_row u ` set src.
                         sql_not_in (dop_pgn_eco_url c) (map dop_pgn_eco_url dest_o)}
   \<and> distinct (load_dim_openings u (Some dest_o) src)
   \<and> (None \<notin> dop_pgn_eco_url ` set dest_o \<and> None \<notin> pgn_eco_url ` set src \<longrightarrow>
      set (load_dim_openings u (Some dest_o) src)
        = set dest_o \<union> {c \<in> opening_row u ` set src. dop_pgn_eco_url c \<notin> dop_pgn_eco_url ` set dest_o})
   \<and> set (load_dim_date (Some dest_d) src)
     = set dest_d \<union> {c \<in> date_row ` set src. sql_not_in (dd_game_date c) (map dd_game_date dest_d)}
   \<and> distinct (load_dim_date (Some dest_d) src)
   \<and> (None \<notin> dd_game_date ` set dest_d \<and> None \<notin> game_date ` set src \<longrightarrow>
      set (load_dim_date (Some dest_d) src)
        = set dest_d \<union> {c \<in> date_row ` set src. dd_game_date c \<notin> dd_game_date ` set dest_d})
   \<and> load_dim_results (Some dest_r) src = dest_r
   \<and> load_dim_results None src = dim_results_seed"
proof -
  have o: "set (load_dim_openings u (Some dest_o) src)
     = set dest_o \<union> {c \<in> opening_row u ` set src.
                         sql_not_in (dop_pgn_eco_url c) (map dop_pgn_eco_url dest_o)}"
  proof -
    have "set (load_dim_openings u (Some dest_o) src)
          = opening_row u ` set (filter (\<lambda>r. sql_not_in (pgn_eco_url r) (map dop_pgn_eco_url dest_o)) src)
            \<union> set dest_o"
      by (simp add: load_dim_openings_def)
    also have "opening_row u ` set (filter (\<lambda>r. sql_not_in (pgn_eco_url r) (map dop_pgn_eco_url dest_o)) src)
          = {c \<in> opening_row u ` set src. sql_not_in (dop_pgn_eco_url c) (map dop_pgn_eco_url dest_o)}"
      by (rule image_filter_not_in) simp
    finally show ?thesis by (simp add: Un_commute)
  qed
  have d: "set (load_dim_date (Some dest_d) src)
     = set dest_d \<union> {c \<in> date_row ` set src. sql_not_in (dd_game_date c) (map dd_game_date dest_d)}"
  proof -
    have "set (load_dim_date (Some dest_d) src)
          = date_row ` set (filter (\<lambda>r. sql_not_in (game_date r) (map dd_game_date dest_d)) src)
            \<union> set dest_d"
      by (simp add: load_dim_date_def)
    also have "date_row ` set (filter (\<lambda>r. sql_not_in (game_date r) (map dd_game_date dest_d)) src)
          = {c \<in> date_row ` set src. sql_not_in (dd_game_date c) (map dd_game_date dest_d)}"
      by (rule image_filter_not_in) simp
    finally show ?thesis by (simp add: Un_commute)
  qed
  have o': "set (load_dim_openings u (Some dest_o) src)
        = set dest_o \<union> {c \<in> opening_row u ` set src. dop_pgn_eco_url c \<notin> dop_pgn_eco_url ` set dest_o}"
    if "None \<notin> dop_pgn_eco_url ` set dest_o \<and> None \<notin> pgn_eco_url ` set src"
    unfolding o using that
    by (subst sql_not_in_no_nulls [where key = pgn_eco_url]) simp_all
  have d': "set (load_dim_date (Some dest_d) src)
        = set dest_d \<union> {c \<in> date_row ` set src. dd_game_date c \<notin> dd_game_date ` set dest_d}"
    if "None \<notin> dd_game_date ` set dest_d \<and> None \<notin> game_date ` set src"
    unfolding d using that
    by (subst sql_not_in_no_nulls [where key = game_date]) simp_all
  have r: "load_dim_results (Some dest_r) src = dest_r" "load_dim_results None src = dim_results_seed"
    by (simp_all add: load_dim_results_def)
  from o d o' d' r load_dim_openings_distinct [of u "Some dest_o" src]
    load_dim_date_distinct [of "Some dest_d" src]
  show ?thesis by blast
qed

theorem dimension_merge_rule_witness:
  "set (load_dim_openings udfs0 (Some [opening_row udfs0 (silver_game ''u'' ''600'')])
          [silver_game ''v'' ''600'', silver_sicilian])
     = {opening_row udfs0 (silver_game ''u'' ''600''), opening_row udfs0 silver_sicilian}
   \<and> set (load_dim_date (Some [date_row (silver_game ''u'' ''600'')])
          [silver_game ''v'' ''600'', silver_sicilian])
     = {date_row (silver_game ''u'' ''600''), date_row silver_sicilian}"
proof -
  have k: "pgn_eco_url (silver_game x y) = Some ''https://www.chess.com/openings/Italian-Game''"
    "pgn_eco_url silver_sicilian = Some ''https://www.chess.com/openings/Sicilian-Defense''"
    "game_date (silver_game x y) = Some \<lparr>d_year = 2024, d_month = 1, d_day = 31\<rparr>"
    "game_date silver_sicilian = Some \<lparr>d_year = 2024, d_month = 2, d_day = 1\<rparr>" for x y
    by (simp_all add: silver_sicilian_def silver_game_def)
  have o: "opening_row udfs0 (silver_game ''v'' ''600'') = opening_row udfs0 (silver_game ''u'' ''600'')"
    by (simp add: opening_row_def silver_game_def)
  have d: "date_row (silver_game ''v'' ''600'') = date_row (silver_game ''u'' ''600'')"
    by (simp add: date_row_def silver_game_def)
  show ?thesis
    using dimension_merge_rule
      [where u = udfs0 and dest_o = "[opening_row udfs0 (silver_game ''u'' ''600'')]"
         and src = "[silver_game ''v'' ''600'', silver_sicilian]"
         and dest_d = "[date_row (silver_game ''u'' ''600'')]" and dest_r = "[]"]
    by (auto simp: k o d)
qed

end
